theory Spec2Isabelle
  imports Main "HOL-Library.AList" "HOL-Library.Char_ord" "HOL-Library.List_Lexorder"
begin

section \<open>Python strings\<close>

text \<open>
  Text is modelled as \<^typ>\<open>string\<close>, a list of 8-bit characters: a character of the
  model is a code point below 256. The helpers below are the \<open>str\<close> methods the
  sources call, written out on that alphabet.
\<close>

definition py_strip_chars :: "string \<Rightarrow> string \<Rightarrow> string" where
  \<comment> \<open>\<open>s.strip(chars)\<close>: drop leading and trailing characters that occur in \<open>chars\<close>.\<close>
  "py_strip_chars chars s =
     rev (dropWhile (\<lambda>c. c \<in> set chars) (rev (dropWhile (\<lambda>c. c \<in> set chars) s)))"

definition py_whitespace :: string where
  \<comment> \<open>the code points below 256 for which \<open>str.isspace\<close> holds\<close>
  "py_whitespace =
     [CHR 0x09, CHR 0x0A, CHR 0x0B, CHR 0x0C, CHR 0x0D, CHR 0x1C, CHR 0x1D, CHR 0x1E,
      CHR 0x1F, CHR 0x20, CHR 0x85, CHR 0xA0]"

definition py_strip :: "string \<Rightarrow> string" where
  \<comment> \<open>\<open>s.strip()\<close>\<close>
  "py_strip s = py_strip_chars py_whitespace s"

definition py_lower_char :: "char \<Rightarrow> char" where
  "py_lower_char c =
     (case map_of (zip ''ABCDEFGHIJKLMNOPQRSTUVWXYZ'' ''abcdefghijklmnopqrstuvwxyz'') c of
        Some l \<Rightarrow> l
      | None \<Rightarrow> c)"

definition py_lower :: "string \<Rightarrow> string" where
  \<comment> \<open>\<open>s.lower()\<close> on the ASCII letters; the suffix tests below only look for ASCII.\<close>
  "py_lower s = map py_lower_char s"

definition endswith :: "string \<Rightarrow> string \<Rightarrow> bool" where
  "endswith s suf = (length suf \<le> length s \<and> drop (length s - length suf) s = suf)"

definition startswith :: "string \<Rightarrow> string \<Rightarrow> bool" where
  "startswith s pre = (take (length pre) s = pre)"

definition endswith_any :: "string \<Rightarrow> string list \<Rightarrow> bool" where
  \<comment> \<open>\<open>s.endswith(tuple)\<close>\<close>
  "endswith_any s sufs = list_ex (endswith s) sufs"

definition splitext_root :: "string \<Rightarrow> string" where
  \<comment> \<open>\<open>os.path.splitext(p)[0]\<close> for a name without a path separator: cut at the last
      dot unless only dots precede it.\<close>
  "splitext_root p =
     (let stem = rev (drop 1 (dropWhile (\<lambda>c. c \<noteq> CHR ''.'') (rev p)))
      in if CHR ''.'' \<in> set p \<and> list_ex (\<lambda>c. c \<noteq> CHR ''.'') stem then stem else p)"

definition path_join :: "string \<Rightarrow> string \<Rightarrow> string" where
  "path_join d n = d @ ''/'' @ n"


section \<open>doc\_writer.py: the document filename\<close>

definition doc_unsafe_chars :: string where
  \<comment> \<open>the character class of \<open>re.sub(r'[<>:"/\\|?*]', "", title)\<close>\<close>
  "doc_unsafe_chars =
     [CHR ''<'', CHR ''>'', CHR '':'', CHR 0x22, CHR ''/'', CHR 0x5C, CHR ''|'', CHR ''?'',
      CHR ''*'']"

definition doc_sanitize_filename :: "string \<Rightarrow> string" where
  \<comment> \<open>\<open>doc_writer._sanitize_filename\<close>\<close>
  "doc_sanitize_filename title =
     (let safe = filter (\<lambda>c. c \<notin> set doc_unsafe_chars) title;
          safe = py_strip_chars ''. '' safe
      in if safe \<noteq> [] then take 200 safe else ''untitled'')"

definition doc_filename :: "string \<Rightarrow> string \<Rightarrow> string" where
  \<comment> \<open>the file name chosen by \<open>doc_writer.create_document\<close>\<close>
  "doc_filename title timestamp =
     (let safe_title = doc_sanitize_filename title
      in if timestamp \<noteq> [] then safe_title @ ''_'' @ timestamp @ ''.docx''
         else safe_title @ ''.docx'')"


section \<open>pipeline.py and app.py: the safe local file name\<close>

definition keep_chars :: string where
  "keep_chars = ''abcdefghijklmnopqrstuvwxyzABCDEFGHIJKLMNOPQRSTUVWXYZ0123456789-_. ''"

definition sanitize_filename :: "string \<Rightarrow> string" where
  \<comment> \<open>\<open>pipeline._sanitize_filename\<close>\<close>
  "sanitize_filename name =
     (let s = py_strip (filter (\<lambda>c. c \<in> set keep_chars) name)
      in if s \<noteq> [] then s else ''recording'')"

definition audio_exts :: "string list" where
  "audio_exts = [''.mp3'', ''.ogg'', ''.m4a'', ''.wav'', ''.flac'']"

definition pipeline_safe_name :: "string \<Rightarrow> string" where
  \<comment> \<open>the first lines of \<open>process_plaud_recording\<close>: extension first, then sanitize\<close>
  "pipeline_safe_name raw_filename =
     (let filename = raw_filename;
          filename = (if \<not> endswith_any (py_lower filename) audio_exts
                      then filename @ ''.mp3'' else filename)
      in sanitize_filename filename)"

definition web_safe_name :: "string \<Rightarrow> string" where
  \<comment> \<open>\<open>recordings_list\<close> and the delete endpoints of app.py: sanitize first, then the
      extension\<close>
  "web_safe_name raw_name =
     (let safe_name = sanitize_filename raw_name
      in if \<not> endswith_any (py_lower safe_name) audio_exts
         then safe_name @ ''.mp3'' else safe_name)"


section \<open>Persisted JSON files\<close>

datatype py_exc =
    JSONDecodeError string
  | OSError string
  | UnicodeDecodeError string
  | KeyError string
  | ValueError string
  | RuntimeError string
  | OtherException string

text \<open>
  A JSON file is described by what \<open>os.path.exists\<close> and \<open>open\<close> followed by
  \<open>json.load\<close> do on it: the path is missing, or reading it raises, or it yields a value.
  Reading raises \<open>OSError\<close> when the file cannot be opened or read,
  \<open>UnicodeDecodeError\<close> when its bytes do not decode as text (the files are opened in
  text mode) and \<open>JSONDecodeError\<close> when the decoded text is not JSON.
  \<open>UnicodeDecodeError\<close> is a \<open>ValueError\<close> and not a \<open>JSONDecodeError\<close>;
  \<open>ValueError\<close> stands for any other \<open>ValueError\<close>.
\<close>

datatype 'a json_file = Missing | Reads "py_exc + 'a"

fun parse_or_io_error :: "py_exc \<Rightarrow> bool" where
  \<comment> \<open>the classes named by \<open>except (json.JSONDecodeError, OSError)\<close>\<close>
  "parse_or_io_error (JSONDecodeError m) = True"
| "parse_or_io_error (OSError m) = True"
| "parse_or_io_error e = False"

definition load_json_or :: "'a \<Rightarrow> 'a json_file \<Rightarrow> py_exc + 'a" where
  \<comment> \<open>the body shared by \<open>load_pipeline_status\<close> and \<open>_load_history\<close>\<close>
  "load_json_or dflt f =
     (case f of
        Missing \<Rightarrow> Inr dflt
      | Reads (Inr v) \<Rightarrow> Inr v
      | Reads (Inl e) \<Rightarrow> if parse_or_io_error e then Inr dflt else Inl e)"

type_synonym entry = "(string \<times> string) list"
type_synonym status_store = "(string \<times> entry) list"

definition load_pipeline_status :: "status_store json_file \<Rightarrow> py_exc + status_store" where
  "load_pipeline_status f = load_json_or [] f"

record history_entry =
  h_filename :: string
  h_status :: string
  h_message :: string
  h_timestamp :: string

definition load_history :: "history_entry list json_file \<Rightarrow> py_exc + history_entry list" where
  \<comment> \<open>\<open>app._load_history\<close>\<close>
  "load_history f = load_json_or [] f"

definition MAX_HISTORY :: nat where
  "MAX_HISTORY = 50"

definition add_history_entry ::
  "string \<Rightarrow> string \<Rightarrow> string \<Rightarrow> string \<Rightarrow> history_entry list json_file
     \<Rightarrow> py_exc + history_entry list json_file" where
  \<comment> \<open>\<open>now\<close> is the reading of the clock taken by the call\<close>
  "add_history_entry filename status message now f =
     (case load_history f of
        Inl e \<Rightarrow> Inl e
      | Inr history \<Rightarrow>
          let history = \<lparr>h_filename = filename, h_status = status, h_message = message,
                          h_timestamp = now\<rparr> # history;
              history = take MAX_HISTORY history
          in Inr (Reads (Inr history)))"

fun add_history_entries ::
  "history_entry list \<Rightarrow> history_entry list json_file
     \<Rightarrow> py_exc + history_entry list json_file" where
  \<comment> \<open>successive calls, one per element; the call's arguments are the element's fields\<close>
  "add_history_entries [] f = Inr f"
| "add_history_entries (x # xs) f =
     (case add_history_entry (h_filename x) (h_status x) (h_message x) (h_timestamp x) f of
        Inl e \<Rightarrow> Inl e
      | Inr f' \<Rightarrow> add_history_entries xs f')"


section \<open>External collaborators and the world they act on\<close>

record config =
  anthropic_api_key :: string
  claude_prompt :: string
  claude_model :: string
  plaud_token :: string
  gdrive_enabled :: bool
  gdrive_refresh_token :: string
  gdrive_documents_folder_id :: string
  gdrive_recordings_folder_id :: string

datatype block =
    TextBlock string
  | ToolUseBlock string string "(string \<times> string) list"  \<comment> \<open>id, name, input\<close>

record response =
  stop_reason :: string
  content :: "block list"

datatype tool_result =
    DocumentResult string string  \<comment> \<open>filename, path\<close>
  | FilesResult "string list"
  | ErrorResult string

datatype message =
    UserText string
  | AssistantContent "block list"
  | UserToolResults "(string \<times> tool_result) list"

text \<open>
  The gateways are parameters of the model. Each says what the call does on given
  arguments: the value it returns, or the exception it raises. \<open>cfg\<close> is what
  \<open>load_config\<close> returns; the pipeline never changes the keys it reads.
  \<open>docx_error\<close> is the exception, if any, that the document library raises while it
  builds and saves the document with the given heading and content.
\<close>

record whisper_result =
  result_segments :: "(nat \<times> string) list"  \<comment> \<open>\<open>int(seg["start"])\<close> and \<open>seg["text"]\<close>\<close>
  result_text :: string

record env =
  iso_time :: "nat \<Rightarrow> string"  \<comment> \<open>\<open>isoformat()\<close> of the n-th reading of the clock\<close>
  stamp_time :: "nat \<Rightarrow> string"  \<comment> \<open>its \<open>strftime("%Y%m%d_%H%M")\<close>\<close>
  cfg :: config
  download_result :: "string \<Rightarrow> string \<Rightarrow> py_exc + bool"
  drive_upload_error :: "string \<Rightarrow> string \<Rightarrow> py_exc option"
  audio_size :: "string \<Rightarrow> py_exc + nat"
  whisper :: "string \<Rightarrow> py_exc + whisper_result"
  docx_error :: "string \<Rightarrow> string \<Rightarrow> py_exc option"
  llm_reply :: "message list \<Rightarrow> py_exc + response"
  rename_error :: "string \<Rightarrow> py_exc option"
  history_import_ok :: bool
  plaud_recordings :: "entry list"

text \<open>
  The world holds the files the program reads and writes, the process-wide lock, a
  clock that counts the readings taken, and three logs that record, in order, every
  status written, every path handed to the transcription engine and every transcript
  handed to the document-creation call.
\<close>

record world =
  status_file :: "status_store json_file"
  history_file :: "history_entry list json_file"
  input_dir :: "string list"
  archive_dir :: "string list"
  transcript_dir :: "(string \<times> string) list"
  output_dir :: "(string \<times> string) list"
  drive :: "(string \<times> string) list"
  processing_lock :: bool
  clock :: nat
  status_log :: "(string \<times> string) list"
  engine_log :: "string list"
  analysis_log :: "string list"

datatype 'a outcome = Returned 'a | Raised py_exc | Running

definition then_do ::
  "'a outcome \<times> world \<Rightarrow> ('a \<Rightarrow> world \<Rightarrow> 'b outcome \<times> world) \<Rightarrow> 'b outcome \<times> world" where
  \<comment> \<open>sequencing: an exception, or a call that has not returned, ends the sequence\<close>
  "then_do m f =
     (case m of
        (Returned a, w) \<Rightarrow> f a w
      | (Raised e, w) \<Rightarrow> (Raised e, w)
      | (Running, w) \<Rightarrow> (Running, w))"

definition except_exception ::
  "'a outcome \<times> world \<Rightarrow> (py_exc \<Rightarrow> world \<Rightarrow> 'a outcome \<times> world) \<Rightarrow> 'a outcome \<times> world" where
  \<comment> \<open>\<open>try: ... except Exception as exc: ...\<close>\<close>
  "except_exception m h = (case m of (Raised e, w) \<Rightarrow> h e w | r \<Rightarrow> r)"

definition of_result :: "py_exc + 'a \<Rightarrow> world \<Rightarrow> 'a outcome \<times> world" where
  "of_result r w = (case r of Inl e \<Rightarrow> (Raised e, w) | Inr a \<Rightarrow> (Returned a, w))"

fun str_exc :: "py_exc \<Rightarrow> string" where
  \<comment> \<open>\<open>str(exc)\<close>\<close>
  "str_exc (JSONDecodeError m) = m"
| "str_exc (OSError m) = m"
| "str_exc (UnicodeDecodeError m) = m"
| "str_exc (KeyError k) = [CHR 0x27] @ k @ [CHR 0x27]"
| "str_exc (ValueError m) = m"
| "str_exc (RuntimeError m) = m"
| "str_exc (OtherException m) = m"


section \<open>pipeline.py: the status store\<close>

definition set_pipeline_status ::
  "env \<Rightarrow> string \<Rightarrow> string \<Rightarrow> string \<Rightarrow> world \<Rightarrow> unit outcome \<times> world" where
  "set_pipeline_status E file_id status filename w =
     (case load_pipeline_status (status_file w) of
        Inl e \<Rightarrow> (Raised e, w)
      | Inr all_status \<Rightarrow>
          let entry = (case map_of all_status file_id of Some en \<Rightarrow> en | None \<Rightarrow> []);
              entry = AList.update ''status'' status entry;
              entry = AList.update ''updated'' (iso_time E (clock w)) entry;
              entry = (if filename \<noteq> [] then AList.update ''filename'' filename entry
                       else entry);
              all_status = AList.update file_id entry all_status
          in (Returned (),
              w\<lparr>status_file := Reads (Inr all_status), clock := Suc (clock w),
                status_log := status_log w @ [(file_id, status)]\<rparr>))"

definition ACTIVE_STATUSES :: "string list" where
  "ACTIVE_STATUSES =
     [''queued'', ''downloading'', ''uploading_recording'', ''transcribing'', ''analyzing'']"

definition entry_active :: "entry \<Rightarrow> bool" where
  \<comment> \<open>\<open>entry.get("status") in _ACTIVE_STATUSES\<close>\<close>
  "entry_active entry =
     (case map_of entry ''status'' of Some s \<Rightarrow> s \<in> set ACTIVE_STATUSES | None \<Rightarrow> False)"

fun reset_entries :: "env \<Rightarrow> status_store \<Rightarrow> nat \<Rightarrow> bool \<Rightarrow> status_store \<times> nat \<times> bool" where
  \<comment> \<open>the loop of \<open>reset_stale_statuses\<close>; the clock and \<open>changed\<close> are threaded\<close>
  "reset_entries E [] t changed = ([], t, changed)"
| "reset_entries E ((file_id, entry) # rest) t changed =
     (if entry_active entry then
        let entry' = AList.update ''updated'' (iso_time E t)
                       (AList.update ''status'' ''error'' entry);
            (rest', t', changed') = reset_entries E rest (Suc t) True
        in ((file_id, entry') # rest', t', changed')
      else
        let (rest', t', changed') = reset_entries E rest t changed
        in ((file_id, entry) # rest', t', changed'))"

definition reset_stale_statuses :: "env \<Rightarrow> world \<Rightarrow> unit outcome \<times> world" where
  "reset_stale_statuses E w =
     (case load_pipeline_status (status_file w) of
        Inl e \<Rightarrow> (Raised e, w)
      | Inr all_status \<Rightarrow>
          let (all_status', t', changed) = reset_entries E all_status (clock w) False
          in if changed
             then (Returned (), w\<lparr>status_file := Reads (Inr all_status'), clock := t'\<rparr>)
             else (Returned (), w))"


section \<open>pipeline.py: gateways\<close>

definition basename :: "string \<Rightarrow> string" where
  \<comment> \<open>\<open>os.path.basename\<close>\<close>
  "basename p = rev (takeWhile (\<lambda>c. c \<noteq> CHR ''/'') (rev p))"

definition upload_to_gdrive :: "env \<Rightarrow> string \<Rightarrow> string \<Rightarrow> world \<Rightarrow> world" where
  \<comment> \<open>\<open>_upload_to_gdrive\<close>: the whole body is inside \<open>try ... except Exception\<close>, so
      the call returns whatever the client does.\<close>
  "upload_to_gdrive E local_path folder_type w =
     (if \<not> gdrive_enabled (cfg E) \<or> gdrive_refresh_token (cfg E) = [] then w
      else
        let folder_id = (if folder_type = ''documents''
                         then gdrive_documents_folder_id (cfg E)
                         else gdrive_recordings_folder_id (cfg E))
        in if folder_id = [] then w
           else (case drive_upload_error E local_path folder_id of
                   Some e \<Rightarrow> w
                 | None \<Rightarrow>
                     if (basename local_path, folder_id) \<in> set (drive w) then w
                     else w\<lparr>drive := drive w @ [(basename local_path, folder_id)]\<rparr>))"

definition MAX_AUDIO_FILE_SIZE :: nat where
  "MAX_AUDIO_FILE_SIZE = 500 * 1024 * 1024"

definition MAX_TRANSCRIPT_LENGTH :: nat where
  "MAX_TRANSCRIPT_LENGTH = 500000"

definition MAX_TITLE_LENGTH :: nat where
  "MAX_TITLE_LENGTH = 200"

fun str_nat :: "nat \<Rightarrow> string" where
  \<comment> \<open>\<open>str(n)\<close>, in decimal\<close>
  "str_nat n =
     (if n < 10 then [''0123456789'' ! n]
      else str_nat (n div 10) @ [''0123456789'' ! (n mod 10)])"

declare str_nat.simps [simp del]

definition fmt_02d :: "nat \<Rightarrow> string" where
  \<comment> \<open>the format \<open>{n:02d}\<close>\<close>
  "fmt_02d n = (if n < 10 then ''0'' @ str_nat n else str_nat n)"

definition format_segment :: "nat \<times> string \<Rightarrow> string" where
  \<comment> \<open>\<open>f"[{mm:02d}:{ss:02d}] {seg['text'].strip()}"\<close> with \<open>mm, ss = divmod(start, 60)\<close>\<close>
  "format_segment seg =
     (let start = fst seg; mm = start div 60; ss = start mod 60
      in ''['' @ fmt_02d mm @ '':'' @ fmt_02d ss @ ''] '' @ py_strip (snd seg))"

fun join_lines :: "string list \<Rightarrow> string" where
  \<comment> \<open>\<open>"\n".join(lines)\<close>\<close>
  "join_lines [] = []"
| "join_lines [x] = x"
| "join_lines (x # y # rest) = x @ [CHR 0x0A] @ join_lines (y # rest)"

definition transcribe_audio :: "env \<Rightarrow> string \<Rightarrow> world \<Rightarrow> string outcome \<times> world" where
  "transcribe_audio E file_path w =
     (case audio_size E file_path of
        Inl e \<Rightarrow> (Raised e, w)
      | Inr file_size \<Rightarrow>
          if file_size > MAX_AUDIO_FILE_SIZE
          then (Raised (ValueError (''File too large: '' @ str_nat file_size @ '' bytes (max ''
                                    @ str_nat MAX_AUDIO_FILE_SIZE @ '')'')), w)
          else
            let w1 = w\<lparr>engine_log := engine_log w @ [file_path]\<rparr>
            in (case whisper E file_path of
                  Inl e \<Rightarrow> (Raised e, w1)
                | Inr result \<Rightarrow>
                    let lines = map format_segment (result_segments result);
                        text = (if lines \<noteq> [] then join_lines lines else result_text result);
                        text = (if length text > MAX_TRANSCRIPT_LENGTH
                                then take MAX_TRANSCRIPT_LENGTH text else text)
                    in (Returned text, w1)))"

definition OUTPUT_DIR :: string where
  "OUTPUT_DIR = ''/tmp/claudioscribe''"

definition create_document ::
  "env \<Rightarrow> string \<Rightarrow> string \<Rightarrow> string \<Rightarrow> world \<Rightarrow> tool_result outcome \<times> world" where
  \<comment> \<open>\<open>doc_writer.create_document\<close>: the name it computes and the file it saves; the
      rendering itself is the library's, and the model only says whether it raises\<close>
  "create_document E title content' timestamp w =
     (let safe_title = doc_sanitize_filename title;
          filename = doc_filename title timestamp;
          filepath = path_join OUTPUT_DIR filename
      in (case docx_error E safe_title content' of
            Some e \<Rightarrow> (Raised e, w)
          | None \<Rightarrow>
              (Returned (DocumentResult filename filepath),
               w\<lparr>output_dir := AList.update filename content' (output_dir w)\<rparr>)))"

definition list_documents :: "world \<Rightarrow> tool_result" where
  "list_documents w =
     FilesResult (filter (\<lambda>name. endswith name ''.docx'') (sort (map fst (output_dir w))))"

definition handle_tool_call ::
  "env \<Rightarrow> string \<Rightarrow> string \<Rightarrow> (string \<times> string) list \<Rightarrow> world
     \<Rightarrow> tool_result outcome \<times> world" where
  "handle_tool_call E timestamp tool_name tool_input w =
     (if tool_name = ''create_document'' then
        (case map_of tool_input ''title'' of
           None \<Rightarrow> (Raised (KeyError ''title''), w)
         | Some t \<Rightarrow>
             let title = take MAX_TITLE_LENGTH t
             in (case map_of tool_input ''content'' of
                   None \<Rightarrow> (Raised (KeyError ''content''), w)
                 | Some c \<Rightarrow>
                     then_do (create_document E title c timestamp w) (\<lambda>result w1.
                       (Returned result,
                        upload_to_gdrive E
                          (path_join OUTPUT_DIR (doc_filename title timestamp))
                          ''documents'' w1))))
      else if tool_name = ''list_documents'' then (Returned (list_documents w), w)
      else (Returned (ErrorResult (''Unknown tool: '' @ tool_name)), w))"

fun run_tool_blocks ::
  "env \<Rightarrow> string \<Rightarrow> block list \<Rightarrow> world \<Rightarrow> (string \<times> tool_result) list outcome \<times> world" where
  \<comment> \<open>\<open>for block in response.content\<close>\<close>
  "run_tool_blocks E timestamp [] w = (Returned [], w)"
| "run_tool_blocks E timestamp (TextBlock t # rest) w = run_tool_blocks E timestamp rest w"
| "run_tool_blocks E timestamp (ToolUseBlock block_id name inp # rest) w =
     then_do (handle_tool_call E timestamp name inp w) (\<lambda>result w1.
       then_do (run_tool_blocks E timestamp rest w1) (\<lambda>results w2.
         (Returned ((block_id, result) # results), w2)))"

fun tool_use_loop ::
  "nat \<Rightarrow> env \<Rightarrow> string \<Rightarrow> message list \<Rightarrow> world \<Rightarrow> unit outcome \<times> world" where
  \<comment> \<open>the \<open>while True\<close> of \<open>create_document_via_claude\<close>; the first argument bounds the
      rounds, and \<open>Running\<close> says that the loop has not ended within them\<close>
  "tool_use_loop 0 E timestamp messages w = (Running, w)"
| "tool_use_loop (Suc n) E timestamp messages w =
     (case llm_reply E messages of
        Inl e \<Rightarrow> (Raised e, w)
      | Inr r \<Rightarrow>
          if stop_reason r = ''end_turn'' then (Returned (), w)
          else if stop_reason r = ''tool_use'' then
            then_do (run_tool_blocks E timestamp (content r) w) (\<lambda>tool_results w1.
              tool_use_loop n E timestamp
                (messages @ [AssistantContent (content r), UserToolResults tool_results]) w1)
          else (Raised (RuntimeError (''Claude failed: stop_reason='' @ stop_reason r
                                       @ '' (no document created)'')), w))"

definition first_message :: "env \<Rightarrow> string \<Rightarrow> string \<Rightarrow> message" where
  "first_message E base_name transcript =
     UserText (claude_prompt (cfg E) @ [CHR 0x0A, CHR 0x0A]
               @ ''You are running as model: '' @ claude_model (cfg E) @ [CHR 0x0A, CHR 0x0A]
               @ ''Audio file: '' @ base_name @ [CHR 0x0A, CHR 0x0A]
               @ ''Transcript:'' @ [CHR 0x0A] @ transcript)"

definition create_document_via_claude ::
  "nat \<Rightarrow> env \<Rightarrow> string \<Rightarrow> string \<Rightarrow> string \<Rightarrow> world \<Rightarrow> unit outcome \<times> world" where
  "create_document_via_claude n E filename transcript timestamp w =
     (let w0 = w\<lparr>analysis_log := analysis_log w @ [transcript]\<rparr>
      in if anthropic_api_key (cfg E) = []
         then (Raised (ValueError ''Anthropic API key not configured''), w0)
         else tool_use_loop n E timestamp
                [first_message E (splitext_root filename) transcript] w0)"

definition record_history :: "env \<Rightarrow> string \<Rightarrow> string \<Rightarrow> string \<Rightarrow> world \<Rightarrow> world" where
  \<comment> \<open>\<open>_record_history\<close>: the import and the call are inside \<open>try ... except Exception\<close>\<close>
  "record_history E filename status message w =
     (if \<not> history_import_ok E then w
      else (case add_history_entry filename status message (iso_time E (clock w))
                   (history_file w) of
              Inl e \<Rightarrow> w
            | Inr f \<Rightarrow> w\<lparr>history_file := f, clock := Suc (clock w)\<rparr>))"

definition archive_audio :: "env \<Rightarrow> string \<Rightarrow> world \<Rightarrow> unit outcome \<times> world" where
  \<comment> \<open>\<open>os.rename\<close> into the archive directory\<close>
  "archive_audio E file_path w =
     (case rename_error E file_path of
        Some e \<Rightarrow> (Raised e, w)
      | None \<Rightarrow>
          (Returned (),
           w\<lparr>input_dir := removeAll (basename file_path) (input_dir w),
             archive_dir := List.insert (basename file_path) (archive_dir w)\<rparr>))"

definition transcript_match :: "string \<Rightarrow> string \<Rightarrow> bool" where
  \<comment> \<open>a name matched by the glob pattern \<open>{base_name}_*.txt\<close>; the base name of a
      sanitized file name holds no glob metacharacter\<close>
  "transcript_match base_name name =
     (startswith name (base_name @ ''_'')
      \<and> endswith (drop (length base_name + 1) name) ''.txt'')"

definition find_existing_transcript :: "string \<Rightarrow> (string \<times> string) list \<Rightarrow> string option" where
  \<comment> \<open>\<open>_find_existing_transcript\<close>, on the listing of the transcript directory\<close>
  "find_existing_transcript base_name dir =
     (let matches = sort (filter (transcript_match base_name) (map fst dir))
      in if matches \<noteq> [] then Some (last matches) else None)"


section \<open>pipeline.py: the pipeline for one recording\<close>

fun universal_newlines :: "string \<Rightarrow> string" where
  \<comment> \<open>what \<open>open(path).read()\<close> returns for a file holding the given text: in text mode
      a carriage return, with the line feed that follows it if any, is read as a line
      feed\<close>
  "universal_newlines [] = []"
| "universal_newlines [c] = (if c = CHR 0x0D then [CHR 0x0A] else [c])"
| "universal_newlines (c # d # cs) =
     (if c = CHR 0x0D \<and> d = CHR 0x0A then CHR 0x0A # universal_newlines cs
      else if c = CHR 0x0D then CHR 0x0A # universal_newlines (d # cs)
      else c # universal_newlines (d # cs))"

definition DOWNLOAD_DIR :: string where
  "DOWNLOAD_DIR = ''/watch/input''"

definition TRANSCRIPT_DIR :: string where
  "TRANSCRIPT_DIR = ''/app/config/transcripts''"

definition download_recording :: "env \<Rightarrow> string \<Rightarrow> string \<Rightarrow> world \<Rightarrow> bool outcome \<times> world" where
  \<comment> \<open>\<open>plaud_client.download_recording\<close>: \<open>True\<close> once the file is written\<close>
  "download_recording E file_id file_path w =
     (case download_result E file_id file_path of
        Inl e \<Rightarrow> (Raised e, w)
      | Inr ok \<Rightarrow>
          (Returned ok,
           if ok then w\<lparr>input_dir := List.insert (basename file_path) (input_dir w)\<rparr>
           else w))"

definition prepare_transcript ::
  "env \<Rightarrow> string \<Rightarrow> string \<Rightarrow> string \<Rightarrow> string \<Rightarrow> world \<Rightarrow> string option outcome \<times> world" where
  \<comment> \<open>steps 1 to 3 of \<open>process_plaud_recording\<close>; \<open>None\<close> is the early \<open>return\<close> after a
      failed download, \<open>Some\<close> carries the transcript\<close>
  "prepare_transcript E file_id filename file_path timestamp w =
     then_do (set_pipeline_status E file_id ''downloading'' filename w) (\<lambda>_ w1.
     then_do (download_recording E file_id file_path w1) (\<lambda>ok w2.
       if \<not> ok then
         then_do (set_pipeline_status E file_id ''error'' filename w2) (\<lambda>_ w3.
           (Returned None, record_history E filename ''error'' ''Download failed'' w3))
       else
         then_do (set_pipeline_status E file_id ''uploading_recording'' filename w2) (\<lambda>_ w3.
           let w4 = upload_to_gdrive E file_path ''recordings'' w3;
               base_name = splitext_root filename
           in (case find_existing_transcript base_name (transcript_dir w4) of
                 Some existing_transcript \<Rightarrow>
                   (case map_of (transcript_dir w4) existing_transcript of
                      Some file_text \<Rightarrow> (Returned (Some (universal_newlines file_text)), w4)
                    | None \<Rightarrow> (Raised (OSError ''No such file or directory''), w4))
               | None \<Rightarrow>
                   then_do (set_pipeline_status E file_id ''transcribing'' filename w4) (\<lambda>_ w5.
                   then_do (transcribe_audio E file_path w5) (\<lambda>transcript w6.
                     let transcript_name = base_name @ ''_'' @ timestamp @ ''.txt'';
                         w7 = w6\<lparr>transcript_dir :=
                                  AList.update transcript_name transcript (transcript_dir w6)\<rparr>;
                         w8 = upload_to_gdrive E (path_join TRANSCRIPT_DIR transcript_name)
                                ''documents'' w7
                     in (Returned (Some transcript), w8)))))))"

definition analyze_and_archive ::
  "nat \<Rightarrow> env \<Rightarrow> string \<Rightarrow> string \<Rightarrow> string \<Rightarrow> string \<Rightarrow> string \<Rightarrow> world
     \<Rightarrow> unit outcome \<times> world" where
  \<comment> \<open>steps 4 and 6 of \<open>process_plaud_recording\<close>\<close>
  "analyze_and_archive n E file_id filename file_path timestamp transcript w =
     then_do (set_pipeline_status E file_id ''analyzing'' filename w) (\<lambda>_ w1.
     then_do (create_document_via_claude n E filename transcript timestamp w1) (\<lambda>_ w2.
     then_do (archive_audio E file_path w2) (\<lambda>_ w3.
     then_do (set_pipeline_status E file_id ''processed'' filename w3) (\<lambda>_ w4.
       (Returned (), record_history E filename ''success'' [] w4)))))"

definition process_plaud_recording ::
  "nat \<Rightarrow> env \<Rightarrow> string \<Rightarrow> string \<Rightarrow> world \<Rightarrow> unit outcome \<times> world" where
  "process_plaud_recording n E file_id raw_filename w =
     (let filename = pipeline_safe_name raw_filename;
          file_path = path_join DOWNLOAD_DIR filename;
          timestamp = stamp_time E (clock w);
          w0 = w\<lparr>clock := Suc (clock w)\<rparr>
      in except_exception
           (then_do (prepare_transcript E file_id filename file_path timestamp w0) (\<lambda>t w1.
              case t of
                None \<Rightarrow> (Returned (), w1)
              | Some transcript \<Rightarrow>
                  analyze_and_archive n E file_id filename file_path timestamp transcript w1))
           (\<lambda>exc w1.
              then_do (set_pipeline_status E file_id ''error'' filename w1) (\<lambda>_ w2.
                (Returned (), record_history E filename ''error'' (str_exc exc) w2))))"


section \<open>app.py: the trigger endpoint\<close>



definition recording_status :: "status_store \<Rightarrow> string \<Rightarrow> string" where
  \<comment> \<open>\<open>pipeline_status.get(file_id, {}).get("status", "new")\<close>\<close>
  "recording_status pipeline_status file_id =
     (case map_of pipeline_status file_id of
        None \<Rightarrow> ''new''
      | Some entry \<Rightarrow> (case map_of entry ''status'' of None \<Rightarrow> ''new'' | Some s \<Rightarrow> s))"



section \<open>Observations of a run\<close>

definition STATUS_CHAIN :: "string list" where
  "STATUS_CHAIN =
     [''queued'', ''downloading'', ''uploading_recording'', ''transcribing'', ''analyzing'',
      ''processed'']"

definition chain_index :: "string \<Rightarrow> nat option" where
  "chain_index s =
     (if s \<in> set STATUS_CHAIN then Some (length (takeWhile (\<lambda>x. x \<noteq> s) STATUS_CHAIN))
      else None)"

definition status_before :: "string \<Rightarrow> string \<Rightarrow> bool" where
  \<comment> \<open>\<open>b\<close> may be written after \<open>a\<close>: \<open>b\<close> is later in the chain, or \<open>b\<close> is \<open>error\<close> and
      \<open>a\<close> is a status of the chain other than \<open>processed\<close>\<close>
  "status_before a b =
     (case chain_index a of
        None \<Rightarrow> False
      | Some i \<Rightarrow>
          if b = ''error'' then a \<noteq> ''processed''
          else (case chain_index b of None \<Rightarrow> False | Some j \<Rightarrow> i < j))"

definition put_status ::
  "string \<Rightarrow> string \<Rightarrow> string \<Rightarrow> string \<Rightarrow> status_store \<Rightarrow> status_store" where
  \<comment> \<open>the store that \<open>set_pipeline_status\<close> writes back\<close>
  "put_status file_id status filename now all_status =
     (let entry = (case map_of all_status file_id of Some en \<Rightarrow> en | None \<Rightarrow> []);
          entry = AList.update ''status'' status entry;
          entry = AList.update ''updated'' now entry;
          entry = (if filename \<noteq> [] then AList.update ''filename'' filename entry else entry)
      in AList.update file_id entry all_status)"

definition written :: "string \<Rightarrow> string list \<Rightarrow> world \<Rightarrow> world \<Rightarrow> bool" where
  \<comment> \<open>between the two worlds exactly the statuses \<open>tr\<close> were written for \<open>file_id\<close>, and
      the status file shows the last of them\<close>
  "written file_id tr w w' =
     (status_log w' = status_log w @ map (Pair file_id) tr
      \<and> (if tr = [] then status_file w' = status_file w
          else (\<exists>st. status_file w' = Reads (Inr st) \<and> recording_status st file_id = last tr)))"

text \<open>
  The next four predicates describe what a part of a run did, between the world \<open>w\<close> it
  started in and the world \<open>w'\<close> it ended in: how the call ended (\<open>r\<close>), the statuses it
  wrote (\<open>tr\<close>), and what it added to the logs. Each alternative names what decides it.
\<close>

definition prepare_post ::
  "env \<Rightarrow> string \<Rightarrow> string \<Rightarrow> world \<Rightarrow> string \<Rightarrow> string option outcome \<Rightarrow> string list \<Rightarrow> world
     \<Rightarrow> bool" where
  "prepare_post E file_id fp w base_name r tr w' =
     (analysis_log w' = analysis_log w
      \<and> ((\<exists>e. download_result E file_id fp = Inl e \<and> r = Raised e \<and> tr = [''downloading'']
               \<and> engine_log w' = engine_log w)
          \<or> (download_result E file_id fp = Inr False \<and> r = Returned None
              \<and> tr = [''downloading'', ''error''] \<and> engine_log w' = engine_log w)
          \<or> (download_result E file_id fp = Inr True
              \<and> (case find_existing_transcript base_name (transcript_dir w) of
                    Some name \<Rightarrow>
                      engine_log w' = engine_log w
                      \<and> tr = [''downloading'', ''uploading_recording'']
                      \<and> (\<exists>file_text. map_of (transcript_dir w) name = Some file_text
                            \<and> r = Returned (Some (universal_newlines file_text)))
                  | None \<Rightarrow>
                      tr = [''downloading'', ''uploading_recording'', ''transcribing'']
                      \<and> ((\<exists>t w5. fst (transcribe_audio E fp w5) = Returned t
                             \<and> r = Returned (Some t))
                          \<or> (\<exists>e w5. fst (transcribe_audio E fp w5) = Raised e
                                \<and> r = Raised e))))))"

definition analyze_post ::
  "nat \<Rightarrow> env \<Rightarrow> string \<Rightarrow> string \<Rightarrow> string \<Rightarrow> string \<Rightarrow> world \<Rightarrow> unit outcome \<Rightarrow> string list
     \<Rightarrow> world \<Rightarrow> bool" where
  "analyze_post n E fn fp ts t w r tr w' =
     (engine_log w' = engine_log w \<and> analysis_log w' = analysis_log w @ [t]
      \<and> (((\<exists>w1. fst (create_document_via_claude n E fn t ts w1) = Running)
           \<and> r = Running \<and> tr = [''analyzing''])
          \<or> ((\<exists>w1 e. fst (create_document_via_claude n E fn t ts w1) = Raised e \<and> r = Raised e)
              \<and> tr = [''analyzing''])
          \<or> ((\<exists>w1. fst (create_document_via_claude n E fn t ts w1) = Returned ())
              \<and> ((\<exists>e. rename_error E fp = Some e \<and> r = Raised e) \<and> tr = [''analyzing'']
                  \<or> rename_error E fp = None \<and> r = Returned ()
                     \<and> tr = [''analyzing'', ''processed'']))))"

definition tail_post ::
  "nat \<Rightarrow> env \<Rightarrow> string \<Rightarrow> string \<Rightarrow> string \<Rightarrow> string \<Rightarrow> string list \<Rightarrow> world \<Rightarrow> unit outcome
     \<Rightarrow> string list \<Rightarrow> world \<Rightarrow> bool" where
  \<comment> \<open>the run from the analyzing stage on, after the statuses \<open>pre\<close>, on transcript \<open>t\<close>\<close>
  "tail_post n E fn fp ts t pre w r tr w' =
     (analysis_log w' = analysis_log w @ [t]
      \<and> (((\<exists>w1. fst (create_document_via_claude n E fn t ts w1) = Running)
           \<and> r = Running \<and> tr = pre @ [''analyzing''])
          \<or> ((\<exists>w1 e. fst (create_document_via_claude n E fn t ts w1) = Raised e)
              \<and> r = Returned () \<and> tr = pre @ [''analyzing'', ''error''])
          \<or> ((\<exists>w1. fst (create_document_via_claude n E fn t ts w1) = Returned ())
              \<and> ((\<exists>e. rename_error E fp = Some e) \<and> r = Returned ()
                    \<and> tr = pre @ [''analyzing'', ''error'']
                  \<or> rename_error E fp = None \<and> r = Returned ()
                     \<and> tr = pre @ [''analyzing'', ''processed'']))))"

definition run_post ::
  "nat \<Rightarrow> env \<Rightarrow> string \<Rightarrow> string \<Rightarrow> string \<Rightarrow> string \<Rightarrow> world \<Rightarrow> unit outcome \<Rightarrow> string list
     \<Rightarrow> world \<Rightarrow> bool" where
  \<comment> \<open>every way a run on a readable status store can go: what decides it, how the call
      ends, the statuses it writes and what it hands to the engine and to the analysis\<close>
  "run_post n E file_id fn fp ts w r tr w' =
     (((\<exists>e. download_result E file_id fp = Inl e) \<and> r = Returned ()
         \<and> tr = [''downloading'', ''error'']
         \<and> engine_log w' = engine_log w \<and> analysis_log w' = analysis_log w)
      \<or> (download_result E file_id fp = Inr False \<and> r = Returned ()
          \<and> tr = [''downloading'', ''error'']
          \<and> engine_log w' = engine_log w \<and> analysis_log w' = analysis_log w)
      \<or> (download_result E file_id fp = Inr True
          \<and> (case find_existing_transcript (splitext_root fn) (transcript_dir w) of
                Some name \<Rightarrow>
                  engine_log w' = engine_log w
                  \<and> (\<exists>file_text. map_of (transcript_dir w) name = Some file_text
                        \<and> tail_post n E fn fp ts (universal_newlines file_text)
                             [''downloading'', ''uploading_recording''] w r tr w')
              | None \<Rightarrow>
                  ((\<exists>e w5. fst (transcribe_audio E fp w5) = Raised e) \<and> r = Returned ()
                     \<and> tr = [''downloading'', ''uploading_recording'', ''transcribing'',
                              ''error'']
                     \<and> analysis_log w' = analysis_log w)
                  \<or> (\<exists>t w5. fst (transcribe_audio E fp w5) = Returned t
                        \<and> tail_post n E fn fp ts t
                             [''downloading'', ''uploading_recording'', ''transcribing'']
                             w r tr w'))))"

definition same_but_drive :: "world \<Rightarrow> world \<Rightarrow> bool" where
  \<comment> \<open>the two worlds differ at most in what the cloud drive holds\<close>
  "same_but_drive w1 w2 =
     (status_file w1 = status_file w2 \<and> history_file w1 = history_file w2
      \<and> input_dir w1 = input_dir w2 \<and> archive_dir w1 = archive_dir w2
      \<and> transcript_dir w1 = transcript_dir w2 \<and> output_dir w1 = output_dir w2
      \<and> processing_lock w1 = processing_lock w2 \<and> clock w1 = clock w2
      \<and> status_log w1 = status_log w2 \<and> engine_log w1 = engine_log w2
      \<and> analysis_log w1 = analysis_log w2)"

definition same_run :: "'a outcome \<times> world \<Rightarrow> 'a outcome \<times> world \<Rightarrow> bool" where
  \<comment> \<open>two calls end the same way, in worlds that differ at most in the cloud drive\<close>
  "same_run p q = (fst p = fst q \<and> same_but_drive (snd p) (snd q))"


section \<open>Concrete inputs\<close>

definition old_entry :: history_entry where
  "old_entry = \<lparr>h_filename = ''old.mp3'', h_status = ''success'', h_message = [],
                 h_timestamp = ''2024-01-01T00:00:00+00:00''\<rparr>"

definition new_entry :: history_entry where
  "new_entry = \<lparr>h_filename = ''new.mp3'', h_status = ''error'',
                 h_message = ''Download failed'',
                 h_timestamp = ''2024-01-02T00:00:00+00:00''\<rparr>"

definition demo_cfg :: config where
  "demo_cfg = \<lparr>anthropic_api_key = ''sk-test'', claude_prompt = ''Summarise.'',
                claude_model = ''claude-sonnet-4-6'', plaud_token = ''bearer abc'',
                gdrive_enabled = True, gdrive_refresh_token = ''refresh'',
                gdrive_documents_folder_id = ''docs-folder'',
                gdrive_recordings_folder_id = ''recs-folder''\<rparr>"

definition demo_llm :: "message list \<Rightarrow> py_exc + response" where
  \<comment> \<open>asks for one document on the first round, then signals completion\<close>
  "demo_llm messages =
     (if length messages = 1
      then Inr \<lparr>stop_reason = ''tool_use'',
                content = [ToolUseBlock ''tu1'' ''create_document''
                             [(''title'', ''Notes: a/b''), (''content'', ''# Notes'')]]\<rparr>
      else Inr \<lparr>stop_reason = ''end_turn'', content = [TextBlock ''Done.'']\<rparr>)"

definition demo_env :: env where
  "demo_env = \<lparr>iso_time = (\<lambda>n. ''T'' @ replicate n (CHR ''+'')),
                stamp_time = (\<lambda>n. ''20240501_1000''),
                cfg = demo_cfg,
                download_result = (\<lambda>file_id file_path. Inr True),
                drive_upload_error = (\<lambda>local_path folder_id. None),
                audio_size = (\<lambda>file_path. Inr 1024),
                whisper = (\<lambda>file_path.
                  Inr \<lparr>result_segments = [(0, '' hello '')], result_text = ''hello''\<rparr>),
                docx_error = (\<lambda>heading body. None),
                llm_reply = demo_llm,
                rename_error = (\<lambda>file_path. None),
                history_import_ok = True,
                plaud_recordings = [[(''id'', ''rec1''), (''filename'', ''Team sync'')]]\<rparr>"

definition demo_store :: status_store where
  "demo_store =
     [(''rec1'', [(''status'', ''transcribing''), (''updated'', ''T''),
                  (''filename'', ''Team sync.mp3'')]),
      (''rec2'', [(''status'', ''processed''), (''updated'', ''T'')]),
      (''rec3'', [(''status'', ''error''), (''updated'', ''T'')])]"

definition empty_world :: world where
  "empty_world = \<lparr>status_file = Missing, history_file = Missing, input_dir = [],
                   archive_dir = [], transcript_dir = [], output_dir = [], drive = [],
                   processing_lock = False, clock = 0, status_log = [], engine_log = [],
                   analysis_log = []\<rparr>"

definition demo_world :: world where
  \<comment> \<open>the state a crash during transcription leaves behind\<close>
  "demo_world = empty_world\<lparr>status_file := Reads (Inr demo_store)\<rparr>"

definition cached_world :: world where
  \<comment> \<open>a transcript of an earlier run of \<open>Team sync\<close> is on disk\<close>
  "cached_world =
     empty_world\<lparr>transcript_dir := [(''Team sync_20240430_0900.txt'', ''[00:00] cached'')]\<rparr>"




definition failing_upload_env :: env where
  \<comment> \<open>every upload to the cloud drive raises\<close>
  "failing_upload_env =
     demo_env\<lparr>drive_upload_error :=
       (\<lambda>local_path folder_id. Some (OSError ''Network is unreachable''))\<rparr>"


section \<open>The document filename sanitizer\<close>

lemma strip_chars_subset: "set (py_strip_chars cs s) \<subseteq> set s"
  unfolding py_strip_chars_def
  by (metis (no_types, lifting) dual_order.trans set_dropWhileD set_rev subsetI)

lemma strip_chars_all: "set s \<subseteq> set cs \<Longrightarrow> py_strip_chars cs s = []"
  unfolding py_strip_chars_def
  by (auto simp add: dropWhile_eq_Nil_conv dest: set_dropWhileD)

text \<open>
  Claim C9. For every title, the name returned by the document filename sanitizer holds
  none of the characters \<open>< > : " / \ | ? *\<close>, is at most 200 characters long and is not
  empty; a title made only of those characters, dots and spaces yields \<open>untitled\<close>.
\<close>

theorem doc_sanitize_filename_safe:
  "set (doc_sanitize_filename t) \<inter> set doc_unsafe_chars = {}
   \<and> length (doc_sanitize_filename t) \<le> 200
   \<and> doc_sanitize_filename t \<noteq> []
   \<and> (set t \<subseteq> set doc_unsafe_chars \<union> set ''. '' \<longrightarrow> doc_sanitize_filename t = ''untitled'')"
proof -
  let ?f = "filter (\<lambda>c. c \<notin> set doc_unsafe_chars) t"
  let ?s = "py_strip_chars ''. '' ?f"
  have a: "set ?s \<inter> set doc_unsafe_chars = {}"
    using strip_chars_subset[of "''. ''" ?f] by auto
  have u: "set ''untitled'' \<inter> set doc_unsafe_chars = {}"
    by (simp add: doc_unsafe_chars_def)
  have 1: "set (doc_sanitize_filename t) \<inter> set doc_unsafe_chars = {}"
  proof (cases "?s = []")
    case True
    then show ?thesis using u by (simp add: doc_sanitize_filename_def Let_def)
  next
    case False
    have "set (take 200 ?s) \<subseteq> set ?s" by (rule set_take_subset)
    with a False show ?thesis by (auto simp add: doc_sanitize_filename_def Let_def)
  qed
  have 2: "length (doc_sanitize_filename t) \<le> 200"
    by (simp add: doc_sanitize_filename_def Let_def)
  have 3: "doc_sanitize_filename t \<noteq> []"
    by (simp add: doc_sanitize_filename_def Let_def)
  have 4: "doc_sanitize_filename t = ''untitled''"
    if "set t \<subseteq> set doc_unsafe_chars \<union> set ''. ''"
  proof -
    have "set ?f \<subseteq> set ''. ''" using that by auto
    then have "?s = []" by (rule strip_chars_all)
    then show ?thesis by (simp add: doc_sanitize_filename_def Let_def)
  qed
  from 1 2 3 4 show ?thesis by blast
qed

theorem doc_sanitize_filename_safe_witness:
  "set ''/:. ?'' \<subseteq> set doc_unsafe_chars \<union> set ''. ''
   \<and> doc_sanitize_filename ''/:. ?'' = ''untitled''"
  using doc_sanitize_filename_safe [of "''/:. ?''"] by (simp add: doc_unsafe_chars_def)


section \<open>The two computations of the safe local file name\<close>

text \<open>
  Claim C7. The web layer's safe name (sanitize, then append the extension) is claimed to
  equal the pipeline's (append the extension, then sanitize) on every raw file name. On a
  name whose characters are all dropped by the sanitizer the pipeline stores the download
  as \<open>.mp3\<close> while the web layer looks for \<open>recording.mp3\<close>; on a name with a space
  after its extension the pipeline appends a second extension and the web layer does not.
\<close>

theorem safe_name_mismatch:
  "pipeline_safe_name ''???'' = ''.mp3'' \<and> web_safe_name ''???'' = ''recording.mp3''
   \<and> pipeline_safe_name ''memo.mp3 '' = ''memo.mp3 .mp3''
   \<and> web_safe_name ''memo.mp3 '' = ''memo.mp3''"
  by (simp add: pipeline_safe_name_def web_safe_name_def sanitize_filename_def
      endswith_any_def endswith_def py_lower_def py_lower_char_def audio_exts_def
      py_strip_def py_strip_chars_def py_whitespace_def keep_chars_def)


section \<open>Loading the persisted files\<close>

text \<open>
  Claim C8. The claim says that for every content of the status file and of the history
  file \<open>load_pipeline_status\<close> and \<open>_load_history\<close> return the empty value when the
  file is missing or malformed and never propagate a parse or I/O error. The handler of
  both functions names \<open>JSONDecodeError\<close> and \<open>OSError\<close> only. A file whose bytes do
  not decode as text makes the read raise \<open>UnicodeDecodeError\<close> before any JSON is
  parsed, and both functions hand that exception on to their caller: the code does not
  do what the claim says on such a file.
\<close>

theorem load_undecodable_propagates:
  "load_pipeline_status (Reads (Inl (UnicodeDecodeError ''invalid start byte'')))
     = Inl (UnicodeDecodeError ''invalid start byte'')
   \<and> load_history (Reads (Inl (UnicodeDecodeError ''invalid start byte'')))
     = Inl (UnicodeDecodeError ''invalid start byte'')"
  by (simp add: load_pipeline_status_def load_history_def load_json_or_def)


section \<open>Startup recovery\<close>

lemma reset_entries_keys: "map fst (fst (reset_entries E s t c)) = map fst s"
  by (induction s arbitrary: t c) (auto simp: Let_def case_prod_beta)

lemma reset_entries_changed:
  "snd (snd (reset_entries E s t c)) = (c \<or> (\<exists>p\<in>set s. entry_active (snd p)))"
proof (induction s arbitrary: t c)
  case Nil
  then show ?case by simp
next
  case (Cons p s)
  obtain k e where p: "p = (k, e)" by (cases p)
  show ?case
  proof (cases "entry_active e")
    case True
    then show ?thesis using Cons.IH[of "Suc t" True] p
      by (simp add: Let_def case_prod_beta)
  next
    case False
    then show ?thesis using Cons.IH[of t c] p
      by (simp add: Let_def case_prod_beta)
  qed
qed

lemma reset_entries_nth:
  "i < length s \<Longrightarrow>
   (entry_active (snd (s ! i)) \<longrightarrow>
      map_of (snd (fst (reset_entries E s t c) ! i)) ''status'' = Some ''error'')
   \<and> (\<not> entry_active (snd (s ! i)) \<longrightarrow> fst (reset_entries E s t c) ! i = s ! i)"
proof (induction s arbitrary: t c i)
  case Nil
  then show ?case by simp
next
  case (Cons p s)
  obtain k e where p: "p = (k, e)" by (cases p)
  show ?case
  proof (cases i)
    case 0
    then show ?thesis using p
      by (auto simp: Let_def update_conv' case_prod_beta)
  next
    case (Suc j)
    then have "j < length s" using Cons.prems by simp
    from Cons.IH[OF this] Suc p show ?thesis
      by (auto simp: Let_def case_prod_beta)
  qed
qed

lemma terminal_not_active:
  "map_of e ''status'' = Some ''processed'' \<or> map_of e ''status'' = Some ''error''
   \<Longrightarrow> \<not> entry_active e"
  by (auto simp: entry_active_def ACTIVE_STATUSES_def)

text \<open>
  Claim C3. For every status store \<open>s\<close> that the status file holds,
  \<open>reset_stale_statuses\<close> returns, and the store \<open>s'\<close> it leaves has the same keys in
  the same order; every entry whose status is one of the active statuses (queued,
  downloading, uploading_recording, transcribing, analyzing) has status \<open>error\<close> in
  \<open>s'\<close>, and every entry whose status is \<open>processed\<close> or \<open>error\<close> is the same entry
  in \<open>s'\<close>.
\<close>

theorem startup_recovery:
  assumes "load_pipeline_status (status_file w) = Inr s"
  shows "\<exists>s'. fst (reset_stale_statuses E w) = Returned ()
           \<and> load_pipeline_status (status_file (snd (reset_stale_statuses E w))) = Inr s'
           \<and> map fst s' = map fst s
           \<and> (\<forall>i<length s.
                (entry_active (snd (s ! i)) \<longrightarrow> map_of (snd (s' ! i)) ''status'' = Some ''error'')
                \<and> ((map_of (snd (s ! i)) ''status'' = Some ''processed''
                     \<or> map_of (snd (s ! i)) ''status'' = Some ''error'') \<longrightarrow> s' ! i = s ! i))"
proof (cases "snd (snd (reset_entries E s (clock w) False))")
  case True
  let ?s' = "fst (reset_entries E s (clock w) False)"
  have r: "reset_stale_statuses E w
           = (Returned (), w\<lparr>status_file := Reads (Inr ?s'),
                              clock := fst (snd (reset_entries E s (clock w) False))\<rparr>)"
    using assms True by (simp add: reset_stale_statuses_def Let_def case_prod_beta)
  have l: "load_pipeline_status (status_file (snd (reset_stale_statuses E w))) = Inr ?s'"
    by (simp add: r load_pipeline_status_def load_json_or_def)
  show ?thesis
    using r l reset_entries_keys[of E s "clock w" False]
      reset_entries_nth[of _ s E "clock w" False] terminal_not_active
    by (intro exI[of _ ?s']) auto
next
  case False
  have r: "reset_stale_statuses E w = (Returned (), w)"
    using assms False by (simp add: reset_stale_statuses_def Let_def case_prod_beta)
  have na: "\<forall>i<length s. \<not> entry_active (snd (s ! i))"
    using False reset_entries_changed[of E s "clock w" False] by auto
  show ?thesis using r assms na by (intro exI[of _ s]) auto
qed

theorem startup_recovery_witness:
  "load_pipeline_status (status_file demo_world) = Inr demo_store
   \<and> map_of (snd (demo_store ! 0)) ''status'' = Some ''transcribing''
   \<and> map_of (snd (demo_store ! 1)) ''status'' = Some ''processed''
   \<and> map_of (snd (demo_store ! 2)) ''status'' = Some ''error''
   \<and> (\<exists>s'. fst (reset_stale_statuses demo_env demo_world) = Returned ()
          \<and> load_pipeline_status (status_file (snd (reset_stale_statuses demo_env demo_world)))
              = Inr s'
          \<and> map fst s' = [''rec1'', ''rec2'', ''rec3'']
          \<and> map_of (snd (s' ! 0)) ''status'' = Some ''error''
          \<and> s' ! 1 = demo_store ! 1
          \<and> s' ! 2 = demo_store ! 2)"
proof -
  have l: "load_pipeline_status (status_file demo_world) = Inr demo_store"
    by (simp add: demo_world_def empty_world_def load_pipeline_status_def load_json_or_def)
  have n: "length demo_store = 3" "map fst demo_store = [''rec1'', ''rec2'', ''rec3'']"
    by (simp_all add: demo_store_def)
  have s0: "map_of (snd (demo_store ! 0)) ''status'' = Some ''transcribing''"
    and s1: "map_of (snd (demo_store ! 1)) ''status'' = Some ''processed''"
    and s2: "map_of (snd (demo_store ! 2)) ''status'' = Some ''error''"
    by (simp_all add: demo_store_def old_entry_def)
  have a0: "entry_active (snd (demo_store ! 0))"
    by (simp add: entry_active_def ACTIVE_STATUSES_def s0)
  from startup_recovery [OF l, of demo_env] obtain s' where
    r: "fst (reset_stale_statuses demo_env demo_world) = Returned ()"
      "load_pipeline_status (status_file (snd (reset_stale_statuses demo_env demo_world)))
         = Inr s'"
      "map fst s' = map fst demo_store"
    and i: "\<forall>i<length demo_store.
             (entry_active (snd (demo_store ! i))
                \<longrightarrow> map_of (snd (s' ! i)) ''status'' = Some ''error'')
             \<and> ((map_of (snd (demo_store ! i)) ''status'' = Some ''processed''
                  \<or> map_of (snd (demo_store ! i)) ''status'' = Some ''error'')
                 \<longrightarrow> s' ! i = demo_store ! i)"
    by blast
  from i a0 n(1) have e0: "map_of (snd (s' ! 0)) ''status'' = Some ''error''" by simp
  from i s1 n(1) have e1: "s' ! 1 = demo_store ! 1" by simp
  from i s2 n(1) have e2: "s' ! 2 = demo_store ! 2" by simp
  show ?thesis using l s0 s1 s2 r n(2) e0 e1 e2 by auto
qed


section \<open>The single-flight gate of the process endpoint\<close>




section \<open>The bounded history\<close>

lemma take_append_take: "take n (ys @ take n zs) = take n (ys @ zs)"
  by (simp add: min_def)

lemma add_history_entries_eq:
  "load_history f = Inr h \<Longrightarrow> es \<noteq> [] \<Longrightarrow>
   add_history_entries es f = Inr (Reads (Inr (take MAX_HISTORY (rev es @ h))))"
proof (induction es arbitrary: f h)
  case Nil
  then show ?case by simp
next
  case (Cons x xs)
  let ?f' = "Reads (Inr (take MAX_HISTORY (x # h))) :: history_entry list json_file"
  have step: "add_history_entry (h_filename x) (h_status x) (h_message x) (h_timestamp x) f
              = Inr ?f'"
    using Cons.prems(1) by (cases x) (simp add: add_history_entry_def)
  show ?case
  proof (cases "xs = []")
    case True
    then show ?thesis using step by simp
  next
    case False
    have l: "load_history ?f' = Inr (take MAX_HISTORY (x # h))"
      by (simp add: load_history_def load_json_or_def)
    from Cons.IH[OF l False] step show ?thesis
      by (simp add: take_append_take del: take_Suc_Cons)
  qed
qed

text \<open>
  Claim C10. Starting from any persisted history \<open>h\<close> (of any length), after the calls
  \<open>es\<close> of \<open>add_history_entry\<close>, at least one, the stored list is the first 50 entries of
  the calls in reverse order followed by \<open>h\<close>: it holds at most 50 entries, the most
  recent insertion is at index 0, it holds exactly 50 entries as soon as that many are
  available, and after more than 50 calls it holds the 50 newest calls only.
\<close>

theorem history_bounded:
  assumes "load_history f = Inr h" and "es \<noteq> []"
  shows "\<exists>stored. add_history_entries es f = Inr (Reads (Inr stored))
           \<and> stored = take MAX_HISTORY (rev es @ h)
           \<and> length stored \<le> MAX_HISTORY
           \<and> MAX_HISTORY = 50
           \<and> stored ! 0 = last es
           \<and> (MAX_HISTORY \<le> length es + length h \<longrightarrow> length stored = MAX_HISTORY)
           \<and> (MAX_HISTORY < length es \<longrightarrow> stored = take MAX_HISTORY (rev es))"
proof -
  have "rev es \<noteq> []" using assms(2) by simp
  then have "(rev es @ h) ! 0 = rev es ! 0" by (simp add: nth_append)
  also have "\<dots> = last es" using assms(2) by (simp add: rev_nth last_conv_nth)
  finally have hd: "take MAX_HISTORY (rev es @ h) ! 0 = last es"
    by (simp add: MAX_HISTORY_def del: take_append)
  have len: "length (take MAX_HISTORY (rev es @ h)) \<le> MAX_HISTORY" by simp
  have full: "MAX_HISTORY \<le> length es + length h
              \<Longrightarrow> length (take MAX_HISTORY (rev es @ h)) = MAX_HISTORY"
    by simp
  have ev: "MAX_HISTORY < length es
            \<Longrightarrow> take MAX_HISTORY (rev es @ h) = take MAX_HISTORY (rev es)"
    by simp
  show ?thesis using add_history_entries_eq[OF assms] hd len full ev
    by (simp add: MAX_HISTORY_def)
qed

theorem history_bounded_witness:
  "load_history (Reads (Inr (replicate 50 old_entry))) = Inr (replicate 50 old_entry)
   \<and> [new_entry] \<noteq> []
   \<and> add_history_entries [new_entry] (Reads (Inr (replicate 50 old_entry)))
       = Inr (Reads (Inr (new_entry # replicate 49 old_entry)))
   \<and> length (new_entry # replicate 49 old_entry) = 50"
proof -
  have l: "load_history (Reads (Inr (replicate 50 old_entry))) = Inr (replicate 50 old_entry)"
    by (simp add: load_history_def load_json_or_def)
  have e: "[new_entry] \<noteq> []" by simp
  have t: "take 50 (new_entry # replicate 50 old_entry) = new_entry # replicate 49 old_entry"
    by (simp add: take_Cons')
  from history_bounded [OF l e] l t show ?thesis
    by (auto simp: MAX_HISTORY_def)
qed


section \<open>A run of the pipeline\<close>

subsection \<open>set_pipeline_status\<close>

lemma recording_status_put [simp]:
  "recording_status (put_status file_id status filename now st) file_id = status"
  by (simp add: recording_status_def put_status_def Let_def update_conv')

lemma sps_loaded:
  "load_pipeline_status (status_file w) = Inr st \<Longrightarrow>
   set_pipeline_status E file_id status filename w =
     (Returned (),
      w\<lparr>status_file := Reads (Inr (put_status file_id status filename (iso_time E (clock w)) st)),
        clock := Suc (clock w), status_log := status_log w @ [(file_id, status)]\<rparr>)"
  by (simp add: set_pipeline_status_def put_status_def Let_def)

lemma sps_unreadable:
  "load_pipeline_status (status_file w) = Inl e \<Longrightarrow>
   set_pipeline_status E file_id status filename w = (Raised e, w)"
  by (simp add: set_pipeline_status_def)

lemma load_Reads [simp]: "load_pipeline_status (Reads (Inr st)) = Inr st"
  by (simp add: load_pipeline_status_def load_json_or_def)

subsection \<open>What the gateways leave alone\<close>

lemma upload_frame [simp]:
  "status_log (upload_to_gdrive E p f w) = status_log w"
  "status_file (upload_to_gdrive E p f w) = status_file w"
  "engine_log (upload_to_gdrive E p f w) = engine_log w"
  "analysis_log (upload_to_gdrive E p f w) = analysis_log w"
  "transcript_dir (upload_to_gdrive E p f w) = transcript_dir w"
  by (simp_all add: upload_to_gdrive_def Let_def split: option.splits)

lemma record_history_frame [simp]:
  "status_log (record_history E fn s m w) = status_log w"
  "status_file (record_history E fn s m w) = status_file w"
  "engine_log (record_history E fn s m w) = engine_log w"
  "analysis_log (record_history E fn s m w) = analysis_log w"
  "transcript_dir (record_history E fn s m w) = transcript_dir w"
  by (simp_all add: record_history_def split: sum.splits)

lemma download_frame [simp]:
  "status_log (snd (download_recording E i p w)) = status_log w"
  "status_file (snd (download_recording E i p w)) = status_file w"
  "engine_log (snd (download_recording E i p w)) = engine_log w"
  "analysis_log (snd (download_recording E i p w)) = analysis_log w"
  "transcript_dir (snd (download_recording E i p w)) = transcript_dir w"
  by (simp_all add: download_recording_def split: sum.splits)

lemma transcribe_frame [simp]:
  "status_log (snd (transcribe_audio E p w)) = status_log w"
  "status_file (snd (transcribe_audio E p w)) = status_file w"
  "analysis_log (snd (transcribe_audio E p w)) = analysis_log w"
  "transcript_dir (snd (transcribe_audio E p w)) = transcript_dir w"
  by (simp_all add: transcribe_audio_def Let_def split: sum.splits)

lemma archive_frame [simp]:
  "status_log (snd (archive_audio E p w)) = status_log w"
  "status_file (snd (archive_audio E p w)) = status_file w"
  "engine_log (snd (archive_audio E p w)) = engine_log w"
  "analysis_log (snd (archive_audio E p w)) = analysis_log w"
  "transcript_dir (snd (archive_audio E p w)) = transcript_dir w"
  by (simp_all add: archive_audio_def split: option.splits)

lemma handle_tool_call_frame [simp]:
  "status_log (snd (handle_tool_call E ts nm inp w)) = status_log w"
  "status_file (snd (handle_tool_call E ts nm inp w)) = status_file w"
  "engine_log (snd (handle_tool_call E ts nm inp w)) = engine_log w"
  "analysis_log (snd (handle_tool_call E ts nm inp w)) = analysis_log w"
  "transcript_dir (snd (handle_tool_call E ts nm inp w)) = transcript_dir w"
  by (simp_all add: handle_tool_call_def create_document_def then_do_def Let_def
      split: option.splits)

lemma snd_then_do:
  "snd (then_do m f) = (case fst m of Returned a \<Rightarrow> snd (f a (snd m)) | _ \<Rightarrow> snd m)"
  by (cases m) (simp add: then_do_def split: outcome.splits)

lemma run_tool_blocks_frame [simp]:
  "status_log (snd (run_tool_blocks E ts bs w)) = status_log w"
  "status_file (snd (run_tool_blocks E ts bs w)) = status_file w"
  "engine_log (snd (run_tool_blocks E ts bs w)) = engine_log w"
  "analysis_log (snd (run_tool_blocks E ts bs w)) = analysis_log w"
  "transcript_dir (snd (run_tool_blocks E ts bs w)) = transcript_dir w"
  by (induction E ts bs w rule: run_tool_blocks.induct;
      simp add: snd_then_do split: outcome.splits)+

lemma tool_use_loop_frame [simp]:
  "status_log (snd (tool_use_loop n E ts msgs w)) = status_log w"
  "status_file (snd (tool_use_loop n E ts msgs w)) = status_file w"
  "engine_log (snd (tool_use_loop n E ts msgs w)) = engine_log w"
  "analysis_log (snd (tool_use_loop n E ts msgs w)) = analysis_log w"
  "transcript_dir (snd (tool_use_loop n E ts msgs w)) = transcript_dir w"
  by (induction n E ts msgs w rule: tool_use_loop.induct;
      simp add: snd_then_do split: outcome.splits sum.splits)+

lemma cdvc_frame [simp]:
  "status_log (snd (create_document_via_claude n E fn t ts w)) = status_log w"
  "status_file (snd (create_document_via_claude n E fn t ts w)) = status_file w"
  "engine_log (snd (create_document_via_claude n E fn t ts w)) = engine_log w"
  "analysis_log (snd (create_document_via_claude n E fn t ts w)) = analysis_log w @ [t]"
  "transcript_dir (snd (create_document_via_claude n E fn t ts w)) = transcript_dir w"
  by (simp_all add: create_document_via_claude_def Let_def)



subsection \<open>Composing the statuses written\<close>

lemma written_trans:
  "written file_id tr1 w w1 \<Longrightarrow> written file_id tr2 w1 w2 \<Longrightarrow> written file_id (tr1 @ tr2) w w2"
  by (cases "tr2 = []") (auto simp: written_def split: if_splits)

subsection \<open>The three parts of a run\<close>

lemma find_existing_in_dir:
  assumes "find_existing_transcript b dir = Some name"
  shows "\<exists>file_text. map_of dir name = Some file_text"
proof -
  let ?m = "sort (filter (transcript_match b) (map fst dir))"
  from assms have ne: "?m \<noteq> []" and n: "name = last ?m"
    by (auto simp: find_existing_transcript_def Let_def split: if_splits)
  from ne have "last ?m \<in> set ?m" by (rule last_in_set)
  then have "name \<in> fst ` set dir" using n by auto
  then have "map_of dir name \<noteq> None" by (simp add: map_of_eq_None_iff)
  then show ?thesis by auto
qed

lemma not_running [simp]:
  "fst (download_recording E i p w) \<noteq> Running"
  "fst (transcribe_audio E p w) \<noteq> Running"
  "fst (archive_audio E p w) \<noteq> Running"
  by (simp_all add: download_recording_def transcribe_audio_def archive_audio_def Let_def
      split: sum.splits option.splits)

lemma written_loads:
  "written file_id tr w w' \<Longrightarrow> tr \<noteq> [] \<Longrightarrow> \<exists>st. load_pipeline_status (status_file w') = Inr st"
  by (auto simp: written_def)

lemma written_frame:
  "written file_id tr w w1 \<Longrightarrow> status_log w2 = status_log w1 \<Longrightarrow> status_file w2 = status_file w1
   \<Longrightarrow> written file_id tr w w2"
  by (simp add: written_def)

lemma sps_run:
  assumes "load_pipeline_status (status_file w) = Inr st"
  obtains w1 where "set_pipeline_status E file_id s fn w = (Returned (), w1)"
    and "written file_id [s] w w1"
    and "engine_log w1 = engine_log w" and "analysis_log w1 = analysis_log w"
    and "transcript_dir w1 = transcript_dir w"
proof -
  let ?w1 = "w\<lparr>status_file := Reads (Inr (put_status file_id s fn (iso_time E (clock w)) st)),
               clock := Suc (clock w), status_log := status_log w @ [(file_id, s)]\<rparr>"
  have "set_pipeline_status E file_id s fn w = (Returned (), ?w1)"
    by (rule sps_loaded[OF assms])
  moreover have "written file_id [s] w ?w1" by (simp add: written_def)
  ultimately show ?thesis by (rule that) simp_all
qed

lemma prepare_run:
  assumes ld: "load_pipeline_status (status_file w) = Inr st"
  shows "\<exists>tr. written file_id tr w (snd (prepare_transcript E file_id fn fp ts w))
           \<and> prepare_post E file_id fp w (splitext_root fn)
                (fst (prepare_transcript E file_id fn fp ts w)) tr
                (snd (prepare_transcript E file_id fn fp ts w))"
    (is "\<exists>tr. written file_id tr w (snd ?p) \<and> ?Q (fst ?p) tr (snd ?p)")
proof -
  obtain w1 where s1: "set_pipeline_status E file_id ''downloading'' fn w = (Returned (), w1)"
    and wr1: "written file_id [''downloading''] w w1"
    and f1: "engine_log w1 = engine_log w" "analysis_log w1 = analysis_log w"
      "transcript_dir w1 = transcript_dir w"
    by (rule sps_run[OF ld])
  show ?thesis
  proof (cases "download_result E file_id fp")
    case (Inl e)
    have p: "?p = (Raised e, w1)"
      by (simp add: prepare_transcript_def then_do_def s1 download_recording_def Inl)
    have "?Q (Raised e) [''downloading''] w1"
      using f1 by (simp add: prepare_post_def Inl)
    with wr1 show ?thesis unfolding p by (intro exI[of _ "[''downloading'']"]) simp
  next
    case (Inr ok)
    define w2 where "w2 = snd (download_recording E file_id fp w1)"
    have d: "download_recording E file_id fp w1 = (Returned ok, w2)"
      by (simp add: w2_def download_recording_def Inr)
    have f2: "engine_log w2 = engine_log w" "analysis_log w2 = analysis_log w"
      "transcript_dir w2 = transcript_dir w"
      by (simp_all add: w2_def f1)
    have wr2: "written file_id [''downloading''] w w2"
      by (rule written_frame[OF wr1]) (simp_all add: w2_def)
    from written_loads[OF wr2] obtain st2 where ld2: "load_pipeline_status (status_file w2) = Inr st2"
      by auto
    show ?thesis
    proof (cases ok)
      case False
      obtain w3 where s3: "set_pipeline_status E file_id ''error'' fn w2 = (Returned (), w3)"
        and wr3: "written file_id [''error''] w2 w3"
        and f3: "engine_log w3 = engine_log w2" "analysis_log w3 = analysis_log w2"
          "transcript_dir w3 = transcript_dir w2"
        by (rule sps_run[OF ld2])
      define w4 where "w4 = record_history E fn ''error'' ''Download failed'' w3"
      have p: "?p = (Returned None, w4)"
        by (simp add: prepare_transcript_def then_do_def s1 d False s3 w4_def)
      have wr4: "written file_id ([''downloading''] @ [''error'']) w w4"
        by (rule written_frame[OF written_trans[OF wr2 wr3]]) (simp_all add: w4_def)
      have "?Q (Returned None) [''downloading'', ''error''] w4"
        using f2 f3 by (simp add: prepare_post_def w4_def Inr False)
      with wr4 show ?thesis unfolding p by (intro exI[of _ "[''downloading'', ''error'']"]) simp
    next
      case True
      obtain w3 where s3: "set_pipeline_status E file_id ''uploading_recording'' fn w2
                             = (Returned (), w3)"
        and wr3: "written file_id [''uploading_recording''] w2 w3"
        and f3: "engine_log w3 = engine_log w2" "analysis_log w3 = analysis_log w2"
          "transcript_dir w3 = transcript_dir w2"
        by (rule sps_run[OF ld2])
      define w4 where "w4 = upload_to_gdrive E fp ''recordings'' w3"
      have f4: "engine_log w4 = engine_log w" "analysis_log w4 = analysis_log w"
        "transcript_dir w4 = transcript_dir w"
        by (simp_all add: w4_def f2 f3)
      have wr4: "written file_id ([''downloading''] @ [''uploading_recording'']) w w4"
        by (rule written_frame[OF written_trans[OF wr2 wr3]]) (simp_all add: w4_def)
      from written_loads[OF wr4] obtain st4
        where ld4: "load_pipeline_status (status_file w4) = Inr st4" by auto
      show ?thesis
      proof (cases "find_existing_transcript (splitext_root fn) (transcript_dir w)")
        case (Some name)
        show ?thesis
        proof (cases "map_of (transcript_dir w) name")
          case None
          with find_existing_in_dir[OF Some] show ?thesis by simp
        next
          case (Some file_text)
          have p: "?p = (Returned (Some (universal_newlines file_text)), w4)"
            by (simp add: prepare_transcript_def then_do_def s1 d True s3 Let_def
                w4_def[symmetric] f4 f3 f2 \<open>find_existing_transcript (splitext_root fn) (transcript_dir w) = Some name\<close> Some)
          have "?Q (Returned (Some (universal_newlines file_text)))
                  [''downloading'', ''uploading_recording''] w4"
            using f4 by (simp add: prepare_post_def Inr True
                \<open>find_existing_transcript (splitext_root fn) (transcript_dir w) = Some name\<close> Some)
          with wr4 show ?thesis unfolding p
            by (intro exI[of _ "[''downloading'', ''uploading_recording'']"]) simp
        qed
      next
        case None
        obtain w5 where s5: "set_pipeline_status E file_id ''transcribing'' fn w4
                               = (Returned (), w5)"
          and wr5: "written file_id [''transcribing''] w4 w5"
          and f5: "engine_log w5 = engine_log w4" "analysis_log w5 = analysis_log w4"
            "transcript_dir w5 = transcript_dir w4"
          by (rule sps_run[OF ld4])
        define r6 where "r6 = fst (transcribe_audio E fp w5)"
        define w6 where "w6 = snd (transcribe_audio E fp w5)"
        have t: "transcribe_audio E fp w5 = (r6, w6)" by (simp add: r6_def w6_def)
        have f6: "analysis_log w6 = analysis_log w" by (simp add: w6_def f5 f4)
        have wr6: "written file_id ([''downloading''] @ [''uploading_recording''] @ [''transcribing''])
                     w w6"
          using written_frame[OF written_trans[OF wr4 wr5], of w6] by (simp add: w6_def)
        have nr: "r6 \<noteq> Running" by (simp add: r6_def)
        show ?thesis
        proof (cases r6)
          case (Returned transcript)
          define w8 where "w8 = upload_to_gdrive E
              (path_join TRANSCRIPT_DIR (splitext_root fn @ ''_'' @ ts @ ''.txt'')) ''documents''
              (w6\<lparr>transcript_dir := AList.update (splitext_root fn @ ''_'' @ ts @ ''.txt'')
                                      transcript (transcript_dir w6)\<rparr>)"
          have p: "?p = (Returned (Some transcript), w8)"
            using t Returned
            by (simp add: prepare_transcript_def then_do_def s1 d True s3 Let_def
                w4_def[symmetric] f4 f3 f2 None s5 w8_def)
          have "?Q (Returned (Some transcript))
                  [''downloading'', ''uploading_recording'', ''transcribing''] w8"
            using f6 r6_def Returned
            by (auto simp: prepare_post_def None w8_def Inr True intro!: exI[of _ w5])
          moreover have "written file_id
                  [''downloading'', ''uploading_recording'', ''transcribing''] w w8"
            using written_frame[OF wr6, of w8] by (simp add: w8_def)
          ultimately show ?thesis unfolding p
            by (intro exI[of _ "[''downloading'', ''uploading_recording'', ''transcribing'']"])
              simp
        next
          case (Raised e)
          have p: "?p = (Raised e, w6)"
            using t Raised
            by (simp add: prepare_transcript_def then_do_def s1 d True s3 Let_def
                w4_def[symmetric] f4 f3 f2 None s5)
          have "?Q (Raised e) [''downloading'', ''uploading_recording'', ''transcribing''] w6"
            using f6 r6_def Raised
            by (auto simp: prepare_post_def None Inr True intro!: exI[of _ w5])
          with wr6 show ?thesis unfolding p
            by (intro exI[of _ "[''downloading'', ''uploading_recording'', ''transcribing'']"])
              simp
        next
          case Running
          with nr show ?thesis by simp
        qed
      qed
    qed
  qed
qed

lemma analyze_run:
  assumes ld: "load_pipeline_status (status_file w) = Inr st"
  shows "\<exists>tr. written file_id tr w (snd (analyze_and_archive n E file_id fn fp ts t w))
           \<and> analyze_post n E fn fp ts t w
                (fst (analyze_and_archive n E file_id fn fp ts t w)) tr
                (snd (analyze_and_archive n E file_id fn fp ts t w))"
    (is "\<exists>tr. written file_id tr w (snd ?p) \<and> ?Q (fst ?p) tr (snd ?p)")
proof -
  obtain w1 where s1: "set_pipeline_status E file_id ''analyzing'' fn w = (Returned (), w1)"
    and wr1: "written file_id [''analyzing''] w w1"
    and f1: "engine_log w1 = engine_log w" "analysis_log w1 = analysis_log w"
    by (rule sps_run[OF ld])
  define r2 where "r2 = fst (create_document_via_claude n E fn t ts w1)"
  define w2 where "w2 = snd (create_document_via_claude n E fn t ts w1)"
  have c: "create_document_via_claude n E fn t ts w1 = (r2, w2)" by (simp add: r2_def w2_def)
  have f2: "engine_log w2 = engine_log w" "analysis_log w2 = analysis_log w @ [t]"
    by (simp_all add: w2_def f1)
  have wr2: "written file_id [''analyzing''] w w2"
    by (rule written_frame[OF wr1]) (simp_all add: w2_def)
  have ex: "\<exists>w1. fst (create_document_via_claude n E fn t ts w1) = r2"
    unfolding r2_def by (rule exI[of _ w1]) simp
  show ?thesis
  proof (cases r2)
    case Running
    have p: "?p = (Running, w2)"
      using c Running by (simp add: analyze_and_archive_def then_do_def s1)
    have "?Q Running [''analyzing''] w2"
      using f2 ex Running by (simp add: analyze_post_def)
    with wr2 show ?thesis unfolding p by (intro exI[of _ "[''analyzing'']"]) simp
  next
    case (Raised e)
    have p: "?p = (Raised e, w2)"
      using c Raised by (simp add: analyze_and_archive_def then_do_def s1)
    have "?Q (Raised e) [''analyzing''] w2"
      using f2 ex Raised by (simp add: analyze_post_def)
    with wr2 show ?thesis unfolding p by (intro exI[of _ "[''analyzing'']"]) simp
  next
    case (Returned u)
    have ret: "\<exists>w1. fst (create_document_via_claude n E fn t ts w1) = Returned ()"
      using ex Returned by simp
    show ?thesis
    proof (cases "rename_error E fp")
      case (Some e)
      have a: "archive_audio E fp w2 = (Raised e, w2)" by (simp add: archive_audio_def Some)
      have p: "?p = (Raised e, w2)"
        using c Returned a by (simp add: analyze_and_archive_def then_do_def s1)
      have "?Q (Raised e) [''analyzing''] w2"
        using f2 ret Some by (simp add: analyze_post_def)
      with wr2 show ?thesis unfolding p by (intro exI[of _ "[''analyzing'']"]) simp
    next
      case None
      define w3 where "w3 = snd (archive_audio E fp w2)"
      have a: "archive_audio E fp w2 = (Returned (), w3)"
        by (simp add: w3_def archive_audio_def None)
      have f3: "engine_log w3 = engine_log w" "analysis_log w3 = analysis_log w @ [t]"
        by (simp_all add: w3_def f2)
      have wr3: "written file_id [''analyzing''] w w3"
        by (rule written_frame[OF wr2]) (simp_all add: w3_def)
      from written_loads[OF wr3] obtain st3
        where ld3: "load_pipeline_status (status_file w3) = Inr st3" by auto
      obtain w4 where s4: "set_pipeline_status E file_id ''processed'' fn w3 = (Returned (), w4)"
        and wr4: "written file_id [''processed''] w3 w4"
        and f4: "engine_log w4 = engine_log w3" "analysis_log w4 = analysis_log w3"
        by (rule sps_run[OF ld3])
      define w5 where "w5 = record_history E fn ''success'' [] w4"
      have p: "?p = (Returned (), w5)"
        using c Returned a
        by (simp add: analyze_and_archive_def then_do_def s1 s4 w5_def)
      have wr5: "written file_id ([''analyzing''] @ [''processed'']) w w5"
        by (rule written_frame[OF written_trans[OF wr3 wr4]]) (simp_all add: w5_def)
      have "?Q (Returned ()) [''analyzing'', ''processed''] w5"
        using f3 f4 ret None by (simp add: analyze_post_def w5_def)
      with wr5 show ?thesis unfolding p
        by (intro exI[of _ "[''analyzing'', ''processed'']"]) simp
    qed
  qed
qed

lemma handler_run:
  assumes ld: "load_pipeline_status (status_file w) = Inr st"
  obtains w' where
    "then_do (set_pipeline_status E file_id ''error'' fn w)
       (\<lambda>_ w2. (Returned (), record_history E fn ''error'' msg w2)) = (Returned (), w')"
    and "written file_id [''error''] w w'"
    and "engine_log w' = engine_log w" and "analysis_log w' = analysis_log w"
proof -
  obtain w1 where s1: "set_pipeline_status E file_id ''error'' fn w = (Returned (), w1)"
    and wr1: "written file_id [''error''] w w1"
    and f1: "engine_log w1 = engine_log w" "analysis_log w1 = analysis_log w"
    by (rule sps_run[OF ld])
  show ?thesis
  proof (rule that[of "record_history E fn ''error'' msg w1"])
    show "then_do (set_pipeline_status E file_id ''error'' fn w)
            (\<lambda>_ w2. (Returned (), record_history E fn ''error'' msg w2))
          = (Returned (), record_history E fn ''error'' msg w1)"
      by (simp add: then_do_def s1)
    show "written file_id [''error''] w (record_history E fn ''error'' msg w1)"
      by (rule written_frame[OF wr1]) simp_all
  qed (simp_all add: f1)
qed

lemma then_do_simps:
  "then_do (Returned a, w) f = f a w"
  "then_do (Raised e, w) f = (Raised e, w)"
  "then_do (Running, w) f = (Running, w)"
  by (simp_all add: then_do_def)

lemma except_exception_simps:
  "except_exception (Returned a, w) h = (Returned a, w)"
  "except_exception (Raised e, w) h = h e w"
  "except_exception (Running, w) h = (Running, w)"
  by (simp_all add: except_exception_def)

lemma process_run:
  assumes ld: "load_pipeline_status (status_file w) = Inr st"
  shows "\<exists>tr. written file_id tr w (snd (process_plaud_recording n E file_id raw w))
           \<and> run_post n E file_id (pipeline_safe_name raw)
                (path_join DOWNLOAD_DIR (pipeline_safe_name raw)) (stamp_time E (clock w)) w
                (fst (process_plaud_recording n E file_id raw w)) tr
                (snd (process_plaud_recording n E file_id raw w))"
    (is "\<exists>tr. written file_id tr w (snd ?p) \<and> ?Q (fst ?p) tr (snd ?p)")
proof -
  define fn where "fn = pipeline_safe_name raw"
  define fp where "fp = path_join DOWNLOAD_DIR fn"
  define ts where "ts = stamp_time E (clock w)"
  define w0 where "w0 = w\<lparr>clock := Suc (clock w)\<rparr>"
  have f0: "engine_log w0 = engine_log w" "analysis_log w0 = analysis_log w"
    "transcript_dir w0 = transcript_dir w" "status_log w0 = status_log w"
    "status_file w0 = status_file w"
    by (simp_all add: w0_def)
  have ld0: "load_pipeline_status (status_file w0) = Inr st" using ld by (simp add: f0)
  define r1 where "r1 = fst (prepare_transcript E file_id fn fp ts w0)"
  define w1 where "w1 = snd (prepare_transcript E file_id fn fp ts w0)"
  have pr: "prepare_transcript E file_id fn fp ts w0 = (r1, w1)" by (simp add: r1_def w1_def)
  from prepare_run[OF ld0, of file_id E fn fp ts] obtain tr1
    where wr1': "written file_id tr1 w0 w1"
      and q': "prepare_post E file_id fp w0 (splitext_root fn) r1 tr1 w1"
    unfolding r1_def w1_def by blast
  have wr1: "written file_id tr1 w w1" using wr1' by (simp add: written_def f0)
  have q: "analysis_log w1 = analysis_log w
      \<and> ((\<exists>e. download_result E file_id fp = Inl e \<and> r1 = Raised e \<and> tr1 = [''downloading'']
               \<and> engine_log w1 = engine_log w)
          \<or> (download_result E file_id fp = Inr False \<and> r1 = Returned None
              \<and> tr1 = [''downloading'', ''error''] \<and> engine_log w1 = engine_log w)
          \<or> (download_result E file_id fp = Inr True
              \<and> (case find_existing_transcript (splitext_root fn) (transcript_dir w) of
                    Some name \<Rightarrow>
                      engine_log w1 = engine_log w
                      \<and> tr1 = [''downloading'', ''uploading_recording'']
                      \<and> (\<exists>file_text. map_of (transcript_dir w) name = Some file_text
                            \<and> r1 = Returned (Some (universal_newlines file_text)))
                  | None \<Rightarrow>
                      tr1 = [''downloading'', ''uploading_recording'', ''transcribing'']
                      \<and> ((\<exists>t w5. fst (transcribe_audio E fp w5) = Returned t
                             \<and> r1 = Returned (Some t))
                          \<or> (\<exists>e w5. fst (transcribe_audio E fp w5) = Raised e
                                \<and> r1 = Raised e)))))"
    using q' unfolding prepare_post_def f0 .
  have p: "?p = except_exception
             (then_do (r1, w1) (\<lambda>t w1. case t of None \<Rightarrow> (Returned (), w1)
                | Some transcript \<Rightarrow> analyze_and_archive n E file_id fn fp ts transcript w1))
             (\<lambda>exc w1. then_do (set_pipeline_status E file_id ''error'' fn w1)
                (\<lambda>_ w2. (Returned (), record_history E fn ''error'' (str_exc exc) w2)))"
    unfolding process_plaud_recording_def Let_def fp_def fn_def ts_def w0_def
      pr[unfolded fp_def fn_def ts_def w0_def] ..
  have ne: "tr1 \<noteq> []" using q by (auto split: option.splits)
  from written_loads[OF wr1 ne] obtain st1
    where ld1: "load_pipeline_status (status_file w1) = Inr st1" by auto
  show ?thesis
    unfolding fn_def[symmetric] fp_def[symmetric] ts_def[symmetric]
  proof (cases r1)
    case Running
    with q show "\<exists>tr. written file_id tr w (snd ?p)
                   \<and> run_post n E file_id fn fp ts w (fst ?p) tr (snd ?p)"
      by (auto split: option.splits)
  next
    case (Raised e)
    obtain w3 where h: "then_do (set_pipeline_status E file_id ''error'' fn w1)
          (\<lambda>_ w2. (Returned (), record_history E fn ''error'' (str_exc e) w2)) = (Returned (), w3)"
      and wr3: "written file_id [''error''] w1 w3"
      and f3: "engine_log w3 = engine_log w1" "analysis_log w3 = analysis_log w1"
      by (rule handler_run[OF ld1])
    have pe: "?p = (Returned (), w3)"
      unfolding p Raised by (simp add: then_do_simps except_exception_simps h)
    have "run_post n E file_id fn fp ts w (Returned ()) (tr1 @ [''error'']) w3"
      using q Raised f3 by (auto simp: run_post_def split: option.splits)
    with written_trans[OF wr1 wr3]
    show "\<exists>tr. written file_id tr w (snd ?p)
            \<and> run_post n E file_id fn fp ts w (fst ?p) tr (snd ?p)"
      unfolding pe by (intro exI[of _ "tr1 @ [''error'']"]) simp
  next
    case (Returned t')
    show "\<exists>tr. written file_id tr w (snd ?p)
            \<and> run_post n E file_id fn fp ts w (fst ?p) tr (snd ?p)"
    proof (cases t')
      case None
      have pe: "?p = (Returned (), w1)"
        unfolding p Returned None by (simp add: then_do_simps except_exception_simps)
      have "run_post n E file_id fn fp ts w (Returned ()) tr1 w1"
        using q Returned None by (auto simp: run_post_def split: option.splits)
      with wr1 show ?thesis unfolding pe by (intro exI[of _ tr1]) simp
    next
      case (Some t)
      define r2 where "r2 = fst (analyze_and_archive n E file_id fn fp ts t w1)"
      define w2 where "w2 = snd (analyze_and_archive n E file_id fn fp ts t w1)"
      have an: "analyze_and_archive n E file_id fn fp ts t w1 = (r2, w2)"
        by (simp add: r2_def w2_def)
      from analyze_run[OF ld1, of file_id n E fn fp ts t] obtain tr2
        where wr2: "written file_id tr2 w1 w2" and q2: "analyze_post n E fn fp ts t w1 r2 tr2 w2"
        unfolding r2_def w2_def by blast
      have ne2: "tr2 \<noteq> []" using q2 by (auto simp: analyze_post_def)
      from written_loads[OF wr2 ne2] obtain st2
        where ld2: "load_pipeline_status (status_file w2) = Inr st2" by auto
      have wr12: "written file_id (tr1 @ tr2) w w2" by (rule written_trans[OF wr1 wr2])
      have pa: "?p = except_exception (r2, w2)
             (\<lambda>exc w1. then_do (set_pipeline_status E file_id ''error'' fn w1)
                (\<lambda>_ w2. (Returned (), record_history E fn ''error'' (str_exc exc) w2)))"
        unfolding p Returned Some by (simp add: then_do_simps an)
      have q1: "analysis_log w1 = analysis_log w \<and> download_result E file_id fp = Inr True
              \<and> (case find_existing_transcript (splitext_root fn) (transcript_dir w) of
                    Some name \<Rightarrow>
                      engine_log w1 = engine_log w
                      \<and> tr1 = [''downloading'', ''uploading_recording'']
                      \<and> (\<exists>file_text. map_of (transcript_dir w) name = Some file_text
                            \<and> t = universal_newlines file_text)
                  | None \<Rightarrow>
                      tr1 = [''downloading'', ''uploading_recording'', ''transcribing'']
                      \<and> (\<exists>w5. fst (transcribe_audio E fp w5) = Returned t))"
        using q Returned Some by (auto split: option.splits)
      show ?thesis
      proof (cases r2)
        case Running
        have pe: "?p = (Running, w2)" unfolding pa Running by (simp add: except_exception_simps)
        have "run_post n E file_id fn fp ts w Running (tr1 @ tr2) w2"
          using q1 q2 Running
          by (auto simp: run_post_def tail_post_def analyze_post_def split: option.splits)
        with wr12 show ?thesis unfolding pe by (intro exI[of _ "tr1 @ tr2"]) simp
      next
        case (Returned u)
        have pe: "?p = (Returned (), w2)"
          unfolding pa Returned by (simp add: except_exception_simps)
        have "run_post n E file_id fn fp ts w (Returned ()) (tr1 @ tr2) w2"
          using q1 q2 Returned
          by (auto simp: run_post_def tail_post_def analyze_post_def split: option.splits)
        with wr12 show ?thesis unfolding pe by (intro exI[of _ "tr1 @ tr2"]) simp
      next
        case (Raised e)
        obtain w3 where h: "then_do (set_pipeline_status E file_id ''error'' fn w2)
            (\<lambda>_ w2. (Returned (), record_history E fn ''error'' (str_exc e) w2)) = (Returned (), w3)"
          and wr3: "written file_id [''error''] w2 w3"
          and f3: "engine_log w3 = engine_log w2" "analysis_log w3 = analysis_log w2"
          by (rule handler_run[OF ld2])
        have pe: "?p = (Returned (), w3)"
          unfolding pa Raised by (simp add: except_exception_simps h)
        have "run_post n E file_id fn fp ts w (Returned ()) ((tr1 @ tr2) @ [''error'']) w3"
          using q1 q2 Raised f3
          by (auto simp: run_post_def tail_post_def analyze_post_def split: option.splits)
        with written_trans[OF wr12 wr3] show ?thesis
          unfolding pe by (intro exI[of _ "(tr1 @ tr2) @ [''error'']"]) simp
      qed
    qed
  qed
qed

lemma process_unreadable:
  assumes "load_pipeline_status (status_file w) = Inl e"
  shows "process_plaud_recording n E file_id raw w = (Raised e, w\<lparr>clock := Suc (clock w)\<rparr>)"
proof -
  have l: "load_pipeline_status (status_file (w\<lparr>clock := Suc (clock w)\<rparr>)) = Inl e"
    using assms by simp
  show ?thesis
    by (simp add: process_plaud_recording_def prepare_transcript_def Let_def
        sps_unreadable[OF l] then_do_simps except_exception_simps)
qed

lemma run_post_traces:
  assumes "run_post n E file_id fn fp ts w r tr w'"
  shows "tr \<in> set [[''downloading'', ''error''],
                    [''downloading'', ''uploading_recording'', ''transcribing'', ''error''],
                    [''downloading'', ''uploading_recording'', ''analyzing''],
                    [''downloading'', ''uploading_recording'', ''analyzing'', ''error''],
                    [''downloading'', ''uploading_recording'', ''analyzing'', ''processed''],
                    [''downloading'', ''uploading_recording'', ''transcribing'', ''analyzing''],
                    [''downloading'', ''uploading_recording'', ''transcribing'', ''analyzing'',
                     ''error''],
                    [''downloading'', ''uploading_recording'', ''transcribing'', ''analyzing'',
                     ''processed'']]"
  using assms by (auto simp: run_post_def tail_post_def split: option.splits)

lemma status_before_simps:
  "status_before ''queued'' ''downloading''"
  "status_before ''queued'' ''uploading_recording''"
  "status_before ''queued'' ''transcribing''"
  "status_before ''queued'' ''analyzing''"
  "status_before ''queued'' ''processed''"
  "status_before ''queued'' ''error''"
  "status_before ''downloading'' ''uploading_recording''"
  "status_before ''downloading'' ''transcribing''"
  "status_before ''downloading'' ''analyzing''"
  "status_before ''downloading'' ''processed''"
  "status_before ''downloading'' ''error''"
  "status_before ''uploading_recording'' ''transcribing''"
  "status_before ''uploading_recording'' ''analyzing''"
  "status_before ''uploading_recording'' ''processed''"
  "status_before ''uploading_recording'' ''error''"
  "status_before ''transcribing'' ''analyzing''"
  "status_before ''transcribing'' ''processed''"
  "status_before ''transcribing'' ''error''"
  "status_before ''analyzing'' ''processed''"
  "status_before ''analyzing'' ''error''"
  by (simp_all add: status_before_def chain_index_def STATUS_CHAIN_def)

lemma traces_forward:
  assumes "tr \<in> set [[''downloading'', ''error''],
                    [''downloading'', ''uploading_recording'', ''transcribing'', ''error''],
                    [''downloading'', ''uploading_recording'', ''analyzing''],
                    [''downloading'', ''uploading_recording'', ''analyzing'', ''error''],
                    [''downloading'', ''uploading_recording'', ''analyzing'', ''processed''],
                    [''downloading'', ''uploading_recording'', ''transcribing'', ''analyzing''],
                    [''downloading'', ''uploading_recording'', ''transcribing'', ''analyzing'',
                     ''error''],
                    [''downloading'', ''uploading_recording'', ''transcribing'', ''analyzing'',
                     ''processed'']]"
  shows "sorted_wrt status_before (''queued'' # tr)"
  using assms by (auto simp: status_before_simps)

subsection \<open>Runs on a cached transcript and runs whose analysis fails\<close>



lemma team_sync_cached:
  "find_existing_transcript (splitext_root (pipeline_safe_name ''Team sync''))
     [(''Team sync_20240430_0900.txt'', file_text)] = Some ''Team sync_20240430_0900.txt''"
  by (simp add: find_existing_transcript_def transcript_match_def startswith_def endswith_def
      splitext_root_def pipeline_safe_name_def sanitize_filename_def keep_chars_def
      endswith_any_def audio_exts_def py_lower_def py_lower_char_def py_strip_def
      py_strip_chars_def py_whitespace_def Let_def)




lemma completed_cached_run:
  assumes ld: "load_pipeline_status (status_file w) = Inr st"
    and ok: "\<And>t w1. fst (create_document_via_claude n E (pipeline_safe_name raw) t
                          (stamp_time E (clock w)) w1) = Returned ()"
    and c: "find_existing_transcript (splitext_root (pipeline_safe_name raw)) (transcript_dir w)
            = Some name"
    and d: "download_result E file_id (path_join DOWNLOAD_DIR (pipeline_safe_name raw)) = Inr True"
    and a: "rename_error E (path_join DOWNLOAD_DIR (pipeline_safe_name raw)) = None"
  shows "fst (process_plaud_recording n E file_id raw w) = Returned ()
         \<and> written file_id
             [''downloading'', ''uploading_recording'', ''analyzing'', ''processed''] w
             (snd (process_plaud_recording n E file_id raw w))"
proof -
  from process_run[OF ld, of file_id n E raw] obtain tr
    where w: "written file_id tr w (snd (process_plaud_recording n E file_id raw w))"
      and q: "run_post n E file_id (pipeline_safe_name raw)
                (path_join DOWNLOAD_DIR (pipeline_safe_name raw)) (stamp_time E (clock w)) w
                (fst (process_plaud_recording n E file_id raw w)) tr
                (snd (process_plaud_recording n E file_id raw w))"
    by blast
  have "fst (process_plaud_recording n E file_id raw w) = Returned ()
        \<and> tr = [''downloading'', ''uploading_recording'', ''analyzing'', ''processed'']"
    using q ok c d a by (auto simp: run_post_def tail_post_def)
  with w show ?thesis by simp
qed

subsection \<open>Runs that differ only in what the uploads do\<close>

lemma same_run_Pair [simp]:
  "same_run (r1, w1) (r2, w2) \<longleftrightarrow> r1 = r2 \<and> same_but_drive w1 w2"
  by (simp add: same_run_def)

lemma same_but_drive_refl [simp]: "same_but_drive w w"
  by (simp add: same_but_drive_def)

lemma sim_then_do:
  assumes "same_run m1 m2"
    and "\<And>a w1 w2. same_but_drive w1 w2 \<Longrightarrow> same_run (f1 a w1) (f2 a w2)"
  shows "same_run (then_do m1 f1) (then_do m2 f2)"
  using assms by (cases m1; cases m2) (auto simp: then_do_def split: outcome.splits)

lemma sim_except:
  assumes "same_run m1 m2"
    and "\<And>e w1 w2. same_but_drive w1 w2 \<Longrightarrow> same_run (h1 e w1) (h2 e w2)"
  shows "same_run (except_exception m1 h1) (except_exception m2 h2)"
  using assms by (cases m1; cases m2) (auto simp: except_exception_def split: outcome.splits)

lemma sim_upload:
  "same_but_drive w1 w2 \<Longrightarrow>
   same_but_drive (upload_to_gdrive E1 p f w1) (upload_to_gdrive E2 p f w2)"
  by (simp add: same_but_drive_def upload_to_gdrive_def Let_def split: option.splits)

lemma sim_sps:
  "same_but_drive w1 w2 \<Longrightarrow>
   same_run (set_pipeline_status (E\<lparr>drive_upload_error := u\<rparr>) file_id s fn w1)
            (set_pipeline_status E file_id s fn w2)"
  by (simp add: same_but_drive_def set_pipeline_status_def Let_def split: sum.splits)

lemma sim_download:
  "same_but_drive w1 w2 \<Longrightarrow>
   same_run (download_recording (E\<lparr>drive_upload_error := u\<rparr>) file_id fp w1)
            (download_recording E file_id fp w2)"
  by (simp add: same_but_drive_def download_recording_def split: sum.splits)

lemma sim_transcribe:
  "same_but_drive w1 w2 \<Longrightarrow>
   same_run (transcribe_audio (E\<lparr>drive_upload_error := u\<rparr>) fp w1) (transcribe_audio E fp w2)"
  by (simp add: same_but_drive_def transcribe_audio_def Let_def split: sum.splits)

lemma sim_archive:
  "same_but_drive w1 w2 \<Longrightarrow>
   same_run (archive_audio (E\<lparr>drive_upload_error := u\<rparr>) fp w1) (archive_audio E fp w2)"
  by (simp add: same_but_drive_def archive_audio_def split: option.splits)

lemma sim_record_history:
  "same_but_drive w1 w2 \<Longrightarrow>
   same_but_drive (record_history (E\<lparr>drive_upload_error := u\<rparr>) fn s m w1)
                  (record_history E fn s m w2)"
  by (simp add: same_but_drive_def record_history_def split: sum.splits)

lemma sim_create_document:
  "same_but_drive w1 w2 \<Longrightarrow>
   same_run (create_document (E\<lparr>drive_upload_error := u\<rparr>) title c ts w1)
            (create_document E title c ts w2)"
  by (simp add: same_but_drive_def create_document_def Let_def split: option.splits)

lemma sim_handle_tool_call:
  "same_but_drive w1 w2 \<Longrightarrow>
   same_run (handle_tool_call (E\<lparr>drive_upload_error := u\<rparr>) ts nm inp w1)
            (handle_tool_call E ts nm inp w2)"
  unfolding handle_tool_call_def Let_def
  by (auto intro!: sim_then_do sim_create_document sim_upload split: option.splits
      simp: list_documents_def same_but_drive_def[of w1 w2])

lemma sim_run_tool_blocks:
  "same_but_drive w1 w2 \<Longrightarrow>
   same_run (run_tool_blocks (E\<lparr>drive_upload_error := u\<rparr>) ts bs w1)
            (run_tool_blocks E ts bs w2)"
proof (induction bs arbitrary: w1 w2)
  case Nil
  then show ?case by simp
next
  case (Cons b bs)
  show ?case
  proof (cases b)
    case (TextBlock t)
    then show ?thesis using Cons by simp
  next
    case (ToolUseBlock block_id nm inp)
    show ?thesis
      unfolding ToolUseBlock run_tool_blocks.simps
      by (intro sim_then_do sim_handle_tool_call Cons.prems Cons.IH) simp_all
  qed
qed

lemma sim_tool_use_loop:
  "same_but_drive w1 w2 \<Longrightarrow>
   same_run (tool_use_loop n (E\<lparr>drive_upload_error := u\<rparr>) ts msgs w1)
            (tool_use_loop n E ts msgs w2)"
proof (induction n arbitrary: msgs w1 w2)
  case 0
  then show ?case by simp
next
  case (Suc n)
  show ?case
  proof (cases "llm_reply E msgs")
    case (Inl e)
    then show ?thesis using Suc.prems by simp
  next
    case (Inr r)
    have "same_run
            (then_do (run_tool_blocks (E\<lparr>drive_upload_error := u\<rparr>) ts (content r) w1)
               (\<lambda>tool_results w1. tool_use_loop n (E\<lparr>drive_upload_error := u\<rparr>) ts
                  (msgs @ [AssistantContent (content r), UserToolResults tool_results]) w1))
            (then_do (run_tool_blocks E ts (content r) w2)
               (\<lambda>tool_results w1. tool_use_loop n E ts
                  (msgs @ [AssistantContent (content r), UserToolResults tool_results]) w1))"
      by (intro sim_then_do sim_run_tool_blocks Suc.prems Suc.IH)
    then show ?thesis using Inr Suc.prems by simp
  qed
qed

lemma sim_cdvc:
  "same_but_drive w1 w2 \<Longrightarrow>
   same_run (create_document_via_claude n (E\<lparr>drive_upload_error := u\<rparr>) fn t ts w1)
            (create_document_via_claude n E fn t ts w2)"
proof -
  assume s: "same_but_drive w1 w2"
  then have s0: "same_but_drive (w1\<lparr>analysis_log := analysis_log w1 @ [t]\<rparr>)
                                (w2\<lparr>analysis_log := analysis_log w2 @ [t]\<rparr>)"
    by (simp add: same_but_drive_def)
  have fm: "first_message (E\<lparr>drive_upload_error := u\<rparr>) b t = first_message E b t" for b
    by (simp add: first_message_def)
  show ?thesis
    using sim_tool_use_loop[OF s0, where n=n and E=E and u=u and ts=ts] s0
    by (simp add: create_document_via_claude_def Let_def fm)
qed

lemma same_but_drive_transcripts:
  "same_but_drive w1 w2 \<Longrightarrow> transcript_dir w1 = transcript_dir w2"
  by (simp add: same_but_drive_def)

lemma sim_analyze:
  "same_but_drive w1 w2 \<Longrightarrow>
   same_run (analyze_and_archive n (E\<lparr>drive_upload_error := u\<rparr>) file_id fn fp ts t w1)
            (analyze_and_archive n E file_id fn fp ts t w2)"
  unfolding analyze_and_archive_def
  by (intro sim_then_do sim_sps sim_cdvc sim_archive)
    (simp_all add: sim_record_history)

lemma sim_prepare_tail:
  assumes s: "same_but_drive w1 w2"
  shows "same_run
     (let w4 = upload_to_gdrive (E\<lparr>drive_upload_error := u\<rparr>) fp ''recordings'' w1;
          base_name = splitext_root fn
      in (case find_existing_transcript base_name (transcript_dir w4) of
            Some existing_transcript \<Rightarrow>
              (case map_of (transcript_dir w4) existing_transcript of
                 Some file_text \<Rightarrow> (Returned (Some (universal_newlines file_text)), w4)
               | None \<Rightarrow> (Raised (OSError ''No such file or directory''), w4))
          | None \<Rightarrow>
              then_do (set_pipeline_status (E\<lparr>drive_upload_error := u\<rparr>) file_id
                         ''transcribing'' fn w4) (\<lambda>_ w5.
              then_do (transcribe_audio (E\<lparr>drive_upload_error := u\<rparr>) fp w5)
                (\<lambda>transcript w6.
                let transcript_name = base_name @ ''_'' @ ts @ ''.txt'';
                    w7 = w6\<lparr>transcript_dir :=
                             AList.update transcript_name transcript (transcript_dir w6)\<rparr>;
                    w8 = upload_to_gdrive (E\<lparr>drive_upload_error := u\<rparr>)
                           (path_join TRANSCRIPT_DIR transcript_name) ''documents'' w7
                in (Returned (Some transcript), w8)))))
     (let w4 = upload_to_gdrive E fp ''recordings'' w2;
          base_name = splitext_root fn
      in (case find_existing_transcript base_name (transcript_dir w4) of
            Some existing_transcript \<Rightarrow>
              (case map_of (transcript_dir w4) existing_transcript of
                 Some file_text \<Rightarrow> (Returned (Some (universal_newlines file_text)), w4)
               | None \<Rightarrow> (Raised (OSError ''No such file or directory''), w4))
          | None \<Rightarrow>
              then_do (set_pipeline_status E file_id ''transcribing'' fn w4) (\<lambda>_ w5.
              then_do (transcribe_audio E fp w5) (\<lambda>transcript w6.
                let transcript_name = base_name @ ''_'' @ ts @ ''.txt'';
                    w7 = w6\<lparr>transcript_dir :=
                             AList.update transcript_name transcript (transcript_dir w6)\<rparr>;
                    w8 = upload_to_gdrive E (path_join TRANSCRIPT_DIR transcript_name)
                           ''documents'' w7
                in (Returned (Some transcript), w8)))))"
proof -
  define v1 where "v1 = upload_to_gdrive (E\<lparr>drive_upload_error := u\<rparr>) fp ''recordings'' w1"
  define v2 where "v2 = upload_to_gdrive E fp ''recordings'' w2"
  have v: "same_but_drive v1 v2" unfolding v1_def v2_def by (rule sim_upload[OF s])
  have td: "transcript_dir v1 = transcript_dir v2" by (rule same_but_drive_transcripts[OF v])
  have up: "same_but_drive
              (upload_to_gdrive (E\<lparr>drive_upload_error := u\<rparr>) p ''documents''
                 (x1\<lparr>transcript_dir := AList.update k tx (transcript_dir x1)\<rparr>))
              (upload_to_gdrive E p ''documents''
                 (x2\<lparr>transcript_dir := AList.update k tx (transcript_dir x2)\<rparr>))"
    if "same_but_drive x1 x2" for x1 x2 p k tx
    using that by (intro sim_upload) (simp add: same_but_drive_def)
  show ?thesis
    unfolding Let_def v1_def[symmetric] v2_def[symmetric] td
    by (cases "find_existing_transcript (splitext_root fn) (transcript_dir v2)")
      (auto intro!: sim_then_do sim_sps sim_transcribe v up split: option.splits)
qed

lemma sim_prepare:
  assumes s: "same_but_drive w1 w2"
  shows "same_run (prepare_transcript (E\<lparr>drive_upload_error := u\<rparr>) file_id fn fp ts w1)
                  (prepare_transcript E file_id fn fp ts w2)"
  unfolding prepare_transcript_def
  apply (intro sim_then_do sim_sps sim_download s)
   apply assumption
  subgoal for a w1 w2 ok w1' w2'
    apply (cases ok)
     apply (simp only: if_False if_True not_True_eq_False not_False_eq_True)
     apply (intro sim_then_do sim_sps sim_prepare_tail; assumption)
    apply (simp only: if_False if_True not_True_eq_False not_False_eq_True)
    apply (intro sim_then_do sim_sps; (assumption)?)
    apply (simp add: sim_record_history)
    done
  done

lemma demo_cdvc_returns:
  "fst (create_document_via_claude 2 demo_env fn t ts w1) = Returned ()"
  by (simp add: create_document_via_claude_def Let_def numeral_2_eq_2 demo_env_def demo_cfg_def
      demo_llm_def handle_tool_call_def create_document_def then_do_def)


section \<open>The statuses written by a run\<close>

text \<open>
  Claim C2. For every recording, every state and every behaviour of the outside world,
  the statuses that one run of \<open>process_plaud_recording\<close> writes to the status store,
  taken after the \<open>queued\<close> that the trigger endpoint wrote, only move forward through
  queued, downloading, uploading_recording, transcribing, analyzing, processed, or jump
  to \<open>error\<close> from a status other than \<open>processed\<close>: every status written comes
  later in that order than every status written before it, \<open>error\<close> and \<open>processed\<close>
  are followed by nothing, and the status file shows the last status written.
\<close>

theorem statuses_move_forward:
  "\<exists>tr. written file_id tr w (snd (process_plaud_recording n E file_id raw w))
        \<and> sorted_wrt status_before (''queued'' # tr)"
proof (cases "load_pipeline_status (status_file w)")
  case (Inl e)
  show ?thesis
    unfolding process_unreadable[OF Inl]
    by (intro exI[of _ "[]"]) (simp add: written_def status_before_simps)
next
  case (Inr st)
  from process_run[OF Inr, of file_id n E raw] obtain tr
    where w: "written file_id tr w (snd (process_plaud_recording n E file_id raw w))"
      and q: "run_post n E file_id (pipeline_safe_name raw)
                (path_join DOWNLOAD_DIR (pipeline_safe_name raw)) (stamp_time E (clock w)) w
                (fst (process_plaud_recording n E file_id raw w)) tr
                (snd (process_plaud_recording n E file_id raw w))"
    by blast
  from traces_forward[OF run_post_traces[OF q]] w show ?thesis by blast
qed


section \<open>Reuse of a cached transcript\<close>





section \<open>An analysis that produces no document\<close>





section \<open>A failed upload of the recording\<close>

text \<open>
  Claim C5. Take any run of \<open>process_plaud_recording\<close> and replace what the cloud
  uploads do by anything else, an exception on every upload included. The run ends the
  same way and leaves the same world, the statuses written and the status file
  included; only the content of the cloud drive may differ. So a run that ends with
  status \<open>processed\<close> when the upload of the raw recording succeeds advances past
  \<open>uploading_recording\<close> and ends with \<open>processed\<close> when that upload fails.
\<close>

theorem upload_failure_not_fatal:
  "fst (process_plaud_recording n (E\<lparr>drive_upload_error := u\<rparr>) file_id raw w)
     = fst (process_plaud_recording n E file_id raw w)
   \<and> same_but_drive (snd (process_plaud_recording n (E\<lparr>drive_upload_error := u\<rparr>) file_id raw w))
                     (snd (process_plaud_recording n E file_id raw w))"
proof -
  have st: "stamp_time (E\<lparr>drive_upload_error := u\<rparr>) (clock w) = stamp_time E (clock w)"
    by simp
  have "same_run (process_plaud_recording n (E\<lparr>drive_upload_error := u\<rparr>) file_id raw w)
                 (process_plaud_recording n E file_id raw w)"
    unfolding process_plaud_recording_def Let_def st
    apply (intro sim_except sim_then_do)
       apply (rule sim_prepare, simp)
    subgoal for a w1 w2 by (cases a) (simp_all add: sim_analyze)
     apply (erule sim_sps)
    apply (simp add: sim_record_history)
    done
  then show ?thesis by (simp add: same_run_def)
qed

theorem upload_failure_not_fatal_witness:
  "fst (process_plaud_recording 2 failing_upload_env ''rec1'' ''Team sync'' cached_world)
     = Returned ()
   \<and> status_log (snd (process_plaud_recording 2 failing_upload_env ''rec1'' ''Team sync''
                         cached_world))
       = [(''rec1'', ''downloading''), (''rec1'', ''uploading_recording''),
          (''rec1'', ''analyzing''), (''rec1'', ''processed'')]"
proof -
  have td: "transcript_dir cached_world
            = [(''Team sync_20240430_0900.txt'', ''[00:00] cached'')]"
    and al: "status_log cached_world = []"
    and ld: "load_pipeline_status (status_file cached_world) = Inr []"
    by (simp_all add: cached_world_def empty_world_def load_pipeline_status_def
        load_json_or_def)
  have c: "find_existing_transcript (splitext_root (pipeline_safe_name ''Team sync''))
             (transcript_dir cached_world) = Some ''Team sync_20240430_0900.txt''"
    unfolding td by (rule team_sync_cached)
  have d: "download_result demo_env ''rec1''
             (path_join DOWNLOAD_DIR (pipeline_safe_name ''Team sync'')) = Inr True"
    and a: "rename_error demo_env
             (path_join DOWNLOAD_DIR (pipeline_safe_name ''Team sync'')) = None"
    by (simp_all add: demo_env_def)
  from completed_cached_run[OF ld demo_cdvc_returns c d a]
  have r: "fst (process_plaud_recording 2 demo_env ''rec1'' ''Team sync'' cached_world)
             = Returned ()"
    and s: "status_log (snd (process_plaud_recording 2 demo_env ''rec1'' ''Team sync''
                               cached_world))
            = [(''rec1'', ''downloading''), (''rec1'', ''uploading_recording''),
               (''rec1'', ''analyzing''), (''rec1'', ''processed'')]"
    by (simp_all add: written_def al)
  from upload_failure_not_fatal
         [where E=demo_env and u="\<lambda>local_path folder_id. Some (OSError ''Network is unreachable'')"
            and n=2 and file_id="''rec1''" and raw="''Team sync''" and w=cached_world]
  show ?thesis
    unfolding failing_upload_env_def[symmetric] using r s
    by (simp add: same_but_drive_def)
qed

end
